theory Spec2Isabelle
  imports Complex_Main "HOL-Library.Word" "HOL-Library.Sublist"
begin

section \<open>The model graph and the serialisation library\<close>

text \<open>
  The scripts under CortexEngine patch a serialised ONNX model. Only the fields the scripts
  read or write are kept: the IR version, the operator-set list, and in the graph its name,
  the declared input and output tensor descriptors, the intermediate descriptors and the
  stored tensors (name and element type; payloads and nodes are not inspected by any script).
\<close>

datatype elem_type = FLOAT | FLOAT16 | OTHER nat

record value_info_proto =
  vi_name :: string
  vi_elem_type :: elem_type

record tensor_proto =
  t_name :: string
  t_data_type :: elem_type

record opset_id_proto =
  op_domain :: string
  op_version :: int

record graph_proto =
  graph_name :: string
  graph_input :: "value_info_proto list"
  graph_output :: "value_info_proto list"
  graph_value_info :: "value_info_proto list"
  graph_initializer :: "tensor_proto list"

record model_proto =
  ir_version :: int
  opset_import :: "opset_id_proto list"
  graph :: graph_proto

text \<open>
  A file holds either a serialised model or the side-car tensor data that
  \<^verbatim>\<open>save_as_external_data=True\<close> writes next to it. The file system is a map from
  paths to files.
\<close>

datatype onnx_file = ModelFile model_proto | TensorData "tensor_proto list"

type_synonym onnx_fs = "string \<rightharpoonup> onnx_file"

datatype error =
    FileNotFoundError string
  | DecodeError string
  | ValueError string
  | IndexError

text \<open>\<^verbatim>\<open>onnx.load(path)\<close>: a missing file and a file that is no model both raise.\<close>

definition onnx_load :: "onnx_fs \<Rightarrow> string \<Rightarrow> error + model_proto" where
  "onnx_load fs path =
     (case fs path of
        None \<Rightarrow> Inl (FileNotFoundError path)
      | Some (TensorData _) \<Rightarrow> Inl (DecodeError path)
      | Some (ModelFile m) \<Rightarrow> Inr m)"

text \<open>\<^verbatim>\<open>os.path.dirname\<close> (POSIX separators, as in the scripts' literal paths).\<close>

definition dirname :: "string \<Rightarrow> string" where
  "dirname p = rev (drop 1 (dropWhile (\<lambda>c. c \<noteq> CHR ''/'') (rev p)))"

definition basename :: "string \<Rightarrow> string" where
  "basename p = rev (takeWhile (\<lambda>c. c \<noteq> CHR ''/'') (rev p))"

text \<open>
  \<^verbatim>\<open>os.path.join(a, b)\<close> on two components: an absolute second component replaces the
  first, otherwise the two are joined by one separator. The separator is the POSIX one; on
  Windows the joined paths are spelled with a backslash at that place and are otherwise
  the same.
\<close>

definition path_join :: "string \<Rightarrow> string \<Rightarrow> string" where
  "path_join a b =
     (if prefix ''/'' b then b
      else if a = [] \<or> suffix ''/'' a then a @ b
      else a @ ''/'' @ b)"

text \<open>
  \<^verbatim>\<open>onnx.save_model(m, path, save_as_external_data=True, all_tensors_to_one_file=True,
  location=loc)\<close>: the model goes to \<open>path\<close>, the tensor payloads to the file \<open>loc\<close> in the
  same directory.
\<close>

definition onnx_save_model :: "model_proto \<Rightarrow> string \<Rightarrow> string \<Rightarrow> onnx_fs \<Rightarrow> onnx_fs" where
  "onnx_save_model m path location fs =
     (fs(path_join (dirname path) location \<mapsto> TensorData (graph_initializer (graph m))))
       (path \<mapsto> ModelFile m)"

section \<open>The precision fixer: smart\_convert.py\<close>

definition input_path :: string where
  "input_path = ''models/dreamer/onnx/sdxl_turbo_unet_768x768.onnx''"

definition output_path :: string where
  "output_path = ''models/dreamer/onnx/sdxl_turbo_unet_768x768_fp16.onnx''"

definition data_location :: string where
  "data_location = ''sdxl_turbo_unet_768x768_fp16.onnx.data''"

text \<open>
  The half-precision converter is a function of the library \<^verbatim>\<open>onnxconverter_common\<close>;
  the scripts receive it here as a parameter \<open>conv keep_io_types model\<close>, a function from
  graphs to graphs. Console output is left out. A script returns the exception that ended
  it, if any, and the file system it leaves behind.
\<close>

type_synonym converter = "bool \<Rightarrow> model_proto \<Rightarrow> model_proto"

definition smart_convert :: "converter \<Rightarrow> onnx_fs \<Rightarrow> error option \<times> onnx_fs" where
  "smart_convert conv fs =
     (case onnx_load fs input_path of
        Inl e \<Rightarrow> (Some e, fs)
      | Inr model \<Rightarrow>
          if length (graph_output (graph model)) = 0
          then (Some (ValueError
                  ''CRITICAL: The source model has no outputs! You might need to re-export from PyTorch.''), fs)
          else
            let model_fp16 = conv True model in
            if length (graph_output (graph model_fp16)) = 0
            then (Some (ValueError
                    ''CRITICAL: Conversion wiped the outputs. This should not happen with keep_io_types=True.''), fs)
            else (None, onnx_save_model model_fp16 output_path data_location fs))"

text \<open>
  Modelled from the spec: the converter \<^verbatim>\<open>float16.convert_float_to_float16\<close> belongs to
  the library \<^verbatim>\<open>onnxconverter_common\<close>, which is not part of the repository. The spec
  (component design, item (a)) describes it: it down-casts all floating-point tensors to a
  half-precision representation, optionally preserving the declared input/output element
  types.
\<close>

definition half :: "elem_type \<Rightarrow> elem_type" where
  "half t = (if t = FLOAT then FLOAT16 else t)"

definition convert_float_to_float16 :: converter where
  "convert_float_to_float16 keep_io_types model =
     (let g = graph model;
          vi16 = (\<lambda>v. v\<lparr>vi_elem_type := half (vi_elem_type v)\<rparr>);
          t16 = (\<lambda>t. t\<lparr>t_data_type := half (t_data_type t)\<rparr>)
      in model\<lparr>graph := g\<lparr>
           graph_input := (if keep_io_types then graph_input g else map vi16 (graph_input g)),
           graph_output := (if keep_io_types then graph_output g else map vi16 (graph_output g)),
           graph_value_info := map vi16 (graph_value_info g),
           graph_initializer := map t16 (graph_initializer g)\<rparr>\<rparr>)"

section \<open>The repair scripts: repair\_and\_convert.py and transplant\_metadata.py\<close>

text \<open>
  repair\_and\_convert.py captures the declared outputs, converts without
  \<^verbatim>\<open>keep_io_types\<close>, and extends an empty output list with the captured one. The
  converter is taken as a function that returns a graph and leaves the captured descriptors
  as they were.
\<close>

definition repair_and_convert :: "converter \<Rightarrow> onnx_fs \<Rightarrow> error option \<times> onnx_fs" where
  "repair_and_convert conv fs =
     (case onnx_load fs input_path of
        Inl e \<Rightarrow> (Some e, fs)
      | Inr model \<Rightarrow>
          let original_outputs = graph_output (graph model);
              model_fp16 = conv False model;
              model_fp16 =
                (if length (graph_output (graph model_fp16)) = 0
                 then model_fp16\<lparr>graph := (graph model_fp16)\<lparr>
                        graph_output := graph_output (graph model_fp16) @ original_outputs\<rparr>\<rparr>
                 else model_fp16)
          in (None, onnx_save_model model_fp16 output_path data_location fs))"

definition input_orig :: string where
  "input_orig = ''models/dreamer/onnx/sdxl_turbo_unet_768x768.onnx''"

definition input_fp16 :: string where
  "input_fp16 = ''models/dreamer/onnx/sdxl_turbo_unet_768x768_fp16.onnx''"

text \<open>
  transplant\_metadata.py loads both files. Its first trace line reads
  \<^verbatim>\<open>model_orig.opset_import[0]\<close>, which raises IndexError on an empty list, and so does
  the trace line after the transplant.
\<close>

definition transplant_metadata :: "onnx_fs \<Rightarrow> error option \<times> onnx_fs" where
  "transplant_metadata fs =
     (case onnx_load fs input_orig of
        Inl e \<Rightarrow> (Some e, fs)
      | Inr model_orig \<Rightarrow>
         (case onnx_load fs input_fp16 of
            Inl e \<Rightarrow> (Some e, fs)
          | Inr model_fp16 \<Rightarrow>
              if opset_import model_orig = [] then (Some IndexError, fs)
              else
                let model_fp16 = model_fp16\<lparr>opset_import := [] @ opset_import model_orig\<rparr>;
                    model_fp16 = model_fp16\<lparr>ir_version := ir_version model_orig\<rparr>;
                    model_fp16 =
                      (if length (graph_output (graph model_fp16)) = 0
                       then model_fp16\<lparr>graph := (graph model_fp16)\<lparr>
                              graph_output := graph_output (graph model_fp16)
                                                @ graph_output (graph model_orig)\<rparr>\<rparr>
                       else model_fp16)
                in if opset_import model_fp16 = [] then (Some IndexError, fs)
                   else (None, onnx_save_model model_fp16 input_fp16 data_location fs)))"

text \<open>The model stored at a path, if the file there is a model.\<close>

definition saved_model :: "onnx_fs \<Rightarrow> string \<Rightarrow> model_proto option" where
  "saved_model fs path = (case fs path of Some (ModelFile m) \<Rightarrow> Some m | _ \<Rightarrow> None)"

text \<open>Small graphs used as concrete inputs.\<close>

definition sample_vi :: value_info_proto where
  "sample_vi = \<lparr>vi_name = ''sample'', vi_elem_type = FLOAT\<rparr>"

definition out_vi :: value_info_proto where
  "out_vi = \<lparr>vi_name = ''out_sample'', vi_elem_type = FLOAT\<rparr>"

definition unet :: "value_info_proto list \<Rightarrow> model_proto" where
  "unet outs =
     \<lparr>ir_version = 7,
      opset_import = [\<lparr>op_domain = [], op_version = 14\<rparr>],
      graph = \<lparr>graph_name = [], graph_input = [sample_vi], graph_output = outs,
               graph_value_info = [],
               graph_initializer = [\<lparr>t_name = ''w'', t_data_type = FLOAT\<rparr>]\<rparr>\<rparr>"

text \<open>A converter that loses the declared outputs, as the repair scripts expect may happen.\<close>

definition wiping_converter :: converter where
  "wiping_converter keep_io_types model =
     (convert_float_to_float16 keep_io_types model)\<lparr>graph :=
        (graph (convert_float_to_float16 keep_io_types model))\<lparr>graph_output := []\<rparr>\<rparr>"

section \<open>The texture batch converter: convert\_exr.py\<close>

definition INPUT_DIR :: string where
  "INPUT_DIR = ''assets/polyhaven/textures''"

definition OUTPUT_DIR :: string where
  "OUTPUT_DIR = ''assets/textures/rtshowcase''"

definition TEXCONV_PATH :: string where
  "TEXCONV_PATH = ''./texconv.exe''"

definition MAX_HERO_RES :: nat where
  "MAX_HERO_RES = 2048"

definition MAX_PROP_RES :: nat where
  "MAX_PROP_RES = 1024"

subsection \<open>Strings\<close>

text \<open>
  File names are byte strings, a name beyond ASCII being its UTF-8 encoding.
  \<^verbatim>\<open>str.lower\<close> maps the letters A to Z to a to z. Two code points beyond ASCII have a
  lower-case form with an ASCII letter in it: U+212A KELVIN SIGN becomes k, and U+0130
  LATIN CAPITAL LETTER I WITH DOT ABOVE becomes i followed by U+0307. Every other code point
  beyond ASCII has a lower-case form made of code points beyond ASCII; its bytes are left as
  they are, which changes no ASCII byte of the result and no run of ASCII bytes, and so
  none of the script's tests for an ASCII pattern.
\<close>

definition lower_char :: "char \<Rightarrow> char" where
  "lower_char c =
     (case map_of (zip ''ABCDEFGHIJKLMNOPQRSTUVWXYZ'' ''abcdefghijklmnopqrstuvwxyz'') c of
        Some d \<Rightarrow> d
      | None \<Rightarrow> c)"

definition KELVIN_SIGN :: string where
  "KELVIN_SIGN = [CHR 0xE2, CHR 0x84, CHR 0xAA]"

definition CAPITAL_I_WITH_DOT :: string where
  "CAPITAL_I_WITH_DOT = [CHR 0xC4, CHR 0xB0]"

definition SMALL_I_COMBINING_DOT :: string where
  "SMALL_I_COMBINING_DOT = [CHR ''i'', CHR 0xCC, CHR 0x87]"

fun lower :: "string \<Rightarrow> string" where
  "lower [] = []"
| "lower (c # s) =
     (if prefix KELVIN_SIGN (c # s) then CHR ''k'' # lower (drop 2 s)
      else if prefix CAPITAL_I_WITH_DOT (c # s) then SMALL_I_COMBINING_DOT @ lower (drop 1 s)
      else lower_char c # lower s)"

declare lower.simps(2) [simp del]

text \<open>\<^verbatim>\<open>s.endswith(p)\<close> and \<^verbatim>\<open>p in s\<close>.\<close>

definition endswith :: "string \<Rightarrow> string \<Rightarrow> bool" where
  "endswith s p = (length p \<le> length s \<and> drop (length s - length p) s = p)"

fun str_in :: "string \<Rightarrow> string \<Rightarrow> bool" where
  "str_in p [] = (p = [])"
| "str_in p (c # s) = (prefix p (c # s) \<or> str_in p s)"

text \<open>\<^verbatim>\<open>str(n)\<close> for a natural number.\<close>

fun str_nat :: "nat \<Rightarrow> string" where
  "str_nat n =
     (if n < 10 then [''0123456789'' ! n]
      else str_nat (n div 10) @ [''0123456789'' ! (n mod 10)])"

declare str_nat.simps [simp del]

text \<open>
  The root part of \<^verbatim>\<open>os.path.splitext\<close> for a plain file name: everything before the
  last dot, the whole name if there is none.
\<close>

definition splitext_root :: "string \<Rightarrow> string" where
  "splitext_root p =
     (if CHR ''.'' \<in> set p
      then take (length p - length (takeWhile (\<lambda>c. c \<noteq> CHR ''.'') (rev p)) - 1) p
      else p)"

subsection \<open>File selection and classification\<close>

text \<open>The comprehension over \<^verbatim>\<open>os.listdir(INPUT_DIR)\<close>.\<close>

definition is_selected :: "string \<Rightarrow> bool" where
  "is_selected f = (endswith (lower f) ''.exr'' \<and> str_in ''_nor_'' f)"

definition select_files :: "string list \<Rightarrow> string list" where
  "select_files entries = filter is_selected entries"

text \<open>Step 4 of the loop body: the output name or names of a normal map.\<close>

definition targets_of :: "string \<Rightarrow> string list" where
  "targets_of filename =
     (let lower_name = lower filename;
          (output_name, output_names) =
            (if str_in ''wood_shutter'' lower_name
               then (''rt_gallery_floor_normal_bc5'', [])
             else if str_in ''castle_brick'' lower_name
               then (''rt_gallery_leftwall_normal_bc5'', [])
             else if str_in ''grey_plaster'' lower_name
               then (''rt_gallery_rightwall_normal_bc5'', [])
             else if str_in ''metal_plate'' lower_name
               then (''unknown_normal'',
                     [''rt_gallery_cylinder_brushed_normal_bc5'',
                      ''rt_gallery_cube_plastic_normal_bc5''])
             else (''unknown_normal'', []))
      in if output_names \<noteq> [] then output_names else [output_name])"

text \<open>Step 5: the cap of a target, its destination and the compressor's command line.\<close>

definition max_res_of :: "string \<Rightarrow> nat" where
  "max_res_of target =
     (if target \<in> set [''rt_gallery_floor_normal_bc5'',
                         ''rt_gallery_leftwall_normal_bc5'',
                         ''rt_gallery_rightwall_normal_bc5'']
      then MAX_HERO_RES
      else MAX_PROP_RES)"

definition temp_tiff :: string where
  "temp_tiff = ''temp_normal.tif''"

definition final_dds_of :: "string \<Rightarrow> string" where
  "final_dds_of target = path_join OUTPUT_DIR (target @ ''.dds'')"

definition texconv_cmd :: "string \<Rightarrow> string list" where
  "texconv_cmd target =
     [TEXCONV_PATH, ''-f'', ''BC5_UNORM'', ''-y'',
      ''-w'', str_nat (max_res_of target),
      ''-h'', str_nat (max_res_of target),
      ''-o'', OUTPUT_DIR, temp_tiff]"

subsection \<open>32-bit floating point\<close>

text \<open>
  The decoder returns 32-bit floating-point samples, and steps 2 and 3 compute in that
  format. A sample is a finite value, an infinity or NaN. The finite values of the format
  are the reals \<open>n * 2 ^ k\<close> with \<open>\<bar>n\<bar> < 2 ^ 24\<close> and \<open>- 149 \<le> k \<le> 104\<close>; the sign of
  zero is not kept, as no comparison and no stored integer depends on it.
\<close>

datatype f32 = Fin real | PInf | NInf | NaN

text \<open>\<open>ilog2 n\<close> is the integer part of the binary logarithm of a positive \<open>n\<close>.\<close>

fun ilog2 :: "nat \<Rightarrow> nat" where
  "ilog2 n = (if n < 2 then 0 else Suc (ilog2 (n div 2)))"

declare ilog2.simps [simp del]

definition pow2 :: "int \<Rightarrow> real" where
  "pow2 k = (if 0 \<le> k then 2 ^ nat k else 1 / 2 ^ nat (- k))"

text \<open>The binary exponent of a positive real: \<open>pow2 (exponent a) \<le> a < pow2 (exponent a + 1)\<close>.\<close>

definition exponent :: "real \<Rightarrow> int" where
  "exponent a =
     (if 1 \<le> a then int (ilog2 (nat \<lfloor>a\<rfloor>))
      else - int (Suc (ilog2 (nat (\<lceil>1 / a\<rceil> - 1)))))"

definition round_half_even :: "real \<Rightarrow> int" where
  "round_half_even r =
     (let n = \<lfloor>r\<rfloor>; d = r - of_int n
      in if d < 1 / 2 then n
         else if 1 / 2 < d then n + 1
         else if even n then n else n + 1)"

text \<open>
  Rounding of an exact result to the format, to nearest with ties to even: the spacing of
  the format's values around \<open>x\<close> is \<open>pow2 (e - 23)\<close>, where \<open>e\<close> is the exponent of \<open>x\<close>,
  not below that of the subnormal range; a result of magnitude \<open>2 ^ 128\<close> overflows.
\<close>

definition f32_round :: "real \<Rightarrow> f32" where
  "f32_round x =
     (if x = 0 then Fin 0
      else
        let e = max (exponent \<bar>x\<bar>) (- 126);
            ulp = pow2 (e - 23);
            y = of_int (round_half_even (x / ulp)) * ulp
        in if pow2 128 \<le> \<bar>y\<bar> then (if 0 < x then PInf else NInf) else Fin y)"

fun f32_mul :: "f32 \<Rightarrow> f32 \<Rightarrow> f32" where
  "f32_mul NaN _ = NaN"
| "f32_mul _ NaN = NaN"
| "f32_mul (Fin a) (Fin b) = f32_round (a * b)"
| "f32_mul (Fin a) PInf = (if a = 0 then NaN else if 0 < a then PInf else NInf)"
| "f32_mul (Fin a) NInf = (if a = 0 then NaN else if 0 < a then NInf else PInf)"
| "f32_mul PInf (Fin b) = (if b = 0 then NaN else if 0 < b then PInf else NInf)"
| "f32_mul NInf (Fin b) = (if b = 0 then NaN else if 0 < b then NInf else PInf)"
| "f32_mul PInf PInf = PInf"
| "f32_mul PInf NInf = NInf"
| "f32_mul NInf PInf = NInf"
| "f32_mul NInf NInf = PInf"

fun f32_add :: "f32 \<Rightarrow> f32 \<Rightarrow> f32" where
  "f32_add NaN _ = NaN"
| "f32_add _ NaN = NaN"
| "f32_add (Fin a) (Fin b) = f32_round (a + b)"
| "f32_add (Fin a) PInf = PInf"
| "f32_add (Fin a) NInf = NInf"
| "f32_add PInf (Fin b) = PInf"
| "f32_add NInf (Fin b) = NInf"
| "f32_add PInf PInf = PInf"
| "f32_add NInf NInf = NInf"
| "f32_add PInf NInf = NaN"
| "f32_add NInf PInf = NaN"

text \<open>The comparisons \<^verbatim>\<open><\<close> and \<^verbatim>\<open><=\<close>: false whenever an operand is NaN.\<close>

fun f32_less :: "f32 \<Rightarrow> f32 \<Rightarrow> bool" where
  "f32_less (Fin a) (Fin b) = (a < b)"
| "f32_less (Fin a) PInf = True"
| "f32_less NInf (Fin b) = True"
| "f32_less NInf PInf = True"
| "f32_less _ _ = False"

fun f32_le :: "f32 \<Rightarrow> f32 \<Rightarrow> bool" where
  "f32_le (Fin a) (Fin b) = (a \<le> b)"
| "f32_le (Fin a) PInf = True"
| "f32_le NInf (Fin b) = True"
| "f32_le NInf PInf = True"
| "f32_le PInf PInf = True"
| "f32_le NInf NInf = True"
| "f32_le _ _ = False"

text \<open>\<^verbatim>\<open>np.maximum\<close> and \<^verbatim>\<open>np.minimum\<close> on one sample: NaN if either operand is.\<close>

definition f32_maximum :: "f32 \<Rightarrow> f32 \<Rightarrow> f32" where
  "f32_maximum x y = (if x = NaN \<or> y = NaN then NaN else if f32_less x y then y else x)"

definition f32_minimum :: "f32 \<Rightarrow> f32 \<Rightarrow> f32" where
  "f32_minimum x y = (if x = NaN \<or> y = NaN then NaN else if f32_less y x then y else x)"

subsection \<open>Pixel arithmetic\<close>

text \<open>
  A decoded image is the list of its samples. \<^verbatim>\<open>img.min()\<close> is NaN if a sample is NaN
  and the least sample otherwise. A Python float scalar leaves the array in 32-bit
  precision, so the product and the sum of step 2 and the product of step 3 are each
  rounded to the format.
\<close>

type_synonym image = "f32 list"

definition img_min :: "image \<Rightarrow> f32" where
  "img_min img =
     (if NaN \<in> set img then NaN
      else if NInf \<in> set img then NInf
      else case [r. Fin r \<leftarrow> img] of
             [] \<Rightarrow> PInf
           | r # rs \<Rightarrow> Fin (Min (set (r # rs))))"

definition remap :: "image \<Rightarrow> image" where
  "remap img =
     (if f32_less (img_min img) (Fin 0.0)
      then map (\<lambda>x. f32_add (f32_mul x (Fin 0.5)) (Fin 0.5)) img
      else img)"

text \<open>\<^verbatim>\<open>np.clip(x, lo, hi)\<close> is \<^verbatim>\<open>minimum(maximum(x, lo), hi)\<close>.\<close>

definition clip :: "f32 \<Rightarrow> f32 \<Rightarrow> f32 \<Rightarrow> f32" where
  "clip x lo hi = f32_minimum (f32_maximum x lo) hi"

text \<open>
  \<^verbatim>\<open>astype(np.uint16)\<close> drops the fractional part of a value whose integer part fits 16
  bits. The conversion of any other value, NaN among them, is left open by the C language;
  what the platform yields then is the parameter \<open>invalid\<close>.
\<close>

definition astype_uint16 :: "16 word \<Rightarrow> f32 \<Rightarrow> 16 word" where
  "astype_uint16 invalid x =
     (case x of
        Fin r \<Rightarrow>
          let t = (if 0 \<le> r then \<lfloor>r\<rfloor> else \<lceil>r\<rceil>)
          in if 0 \<le> t \<and> t \<le> 65535 then word_of_int t else invalid
      | _ \<Rightarrow> invalid)"

definition clamp_quantize :: "16 word \<Rightarrow> image \<Rightarrow> 16 word list" where
  "clamp_quantize invalid img =
     (let img = map (\<lambda>x. clip x (Fin 0.0) (Fin 1.0)) img
      in map (\<lambda>x. astype_uint16 invalid (f32_mul x (Fin 65535.0))) img)"

subsection \<open>The batch loop\<close>

text \<open>
  The file system seen by the loop holds the intermediate TIFF and the compressor's DDS
  files. The decoder \<^verbatim>\<open>cv2.imread\<close> and the external compressor are given by the
  environment: \<open>imread\<close> returns the samples of a readable file, \<open>texconv\<close> maps a
  command line and the file system to an exit code and the file system it leaves, and
  \<open>invalid_cast\<close> is the platform's result of converting a NaN to a 16-bit integer.
\<close>

datatype tex_file = TIFF "16 word list" | DDS "nat list"

type_synonym tex_fs = "string \<rightharpoonup> tex_file"

record env =
  isdir_input :: bool
  listdir_input :: "string list"
  imread :: "string \<Rightarrow> image option"
  texconv :: "string list \<Rightarrow> tex_fs \<Rightarrow> int \<times> tex_fs"
  invalid_cast :: "16 word"

record state =
  files :: tex_fs
  stdout :: "string list"

definition print :: "string \<Rightarrow> state \<Rightarrow> state" where
  "print line st = st\<lparr>stdout := stdout st @ [line]\<rparr>"

definition os_remove :: "string \<Rightarrow> tex_fs \<Rightarrow> tex_fs" where
  "os_remove p fs = fs(p := None)"

definition os_rename :: "string \<Rightarrow> string \<Rightarrow> tex_fs \<Rightarrow> tex_fs" where
  "os_rename src dst fs = (if src = dst then fs else (fs(dst := fs src))(src := None))"

text \<open>Moving the compressor's output to its destination, an existing file removed first.\<close>

definition move_over :: "string \<Rightarrow> string \<Rightarrow> tex_fs \<Rightarrow> tex_fs" where
  "move_over src dst fs =
     (let fs = (if fs dst \<noteq> None then os_remove dst fs else fs)
      in os_rename src dst fs)"

text \<open>The body of the inner loop over the targets of one file.\<close>

definition process_target :: "env \<Rightarrow> string \<Rightarrow> state \<Rightarrow> string \<Rightarrow> state" where
  "process_target e filename st target =
     (let final_dds = final_dds_of target;
          cmd = texconv_cmd target;
          (returncode, fs) = texconv e cmd (files st);
          st = st\<lparr>files := fs\<rparr>
      in if returncode \<noteq> 0
         then print (''  [ERROR] texconv failed for '' @ filename) st
         else
           let generated_dds = path_join OUTPUT_DIR ''temp_normal.dds'' in
           if files st generated_dds \<noteq> None
           then print (''  -> Generated: '' @ basename final_dds)
                  (st\<lparr>files := move_over generated_dds final_dds (files st)\<rparr>)
           else
             let stem = splitext_root (basename temp_tiff);
                 alt_dds = path_join OUTPUT_DIR (stem @ ''.dds'')
             in if files st alt_dds \<noteq> None
                then print (''  -> Generated (alt): '' @ basename final_dds)
                       (st\<lparr>files := move_over alt_dds final_dds (files st)\<rparr>)
                else print (''  [WARN] Expected DDS not found for '' @ filename) st)"

text \<open>
  The body of the outer loop. An unreadable file is reported and left (\<open>continue\<close>);
  \<^verbatim>\<open>img.min()\<close> raises ValueError on an array without elements.
\<close>

definition process_file :: "env \<Rightarrow> state \<Rightarrow> string \<Rightarrow> error + state" where
  "process_file e st filename =
     (let full_input_path = path_join INPUT_DIR filename;
          st = print (''Processing: '' @ filename @ ''...'') st
      in case imread e full_input_path of
           None \<Rightarrow> Inr (print (''  [ERROR] Could not read '' @ full_input_path) st)
         | Some img \<Rightarrow>
             if img = []
             then Inl (ValueError
                    ''zero-size array to reduction operation minimum which has no identity'')
             else
               let img = remap img;
                   img_16bit = clamp_quantize (invalid_cast e) img;
                   st = st\<lparr>files := (files st)(temp_tiff \<mapsto> TIFF img_16bit)\<rparr>;
                   targets = targets_of filename
               in Inr (foldl (process_target e filename) st targets))"

fun process_files :: "env \<Rightarrow> state \<Rightarrow> string list \<Rightarrow> error + state" where
  "process_files e st [] = Inr st"
| "process_files e st (filename # rest) =
     (case process_file e st filename of
        Inl err \<Rightarrow> Inl err
      | Inr st' \<Rightarrow> process_files e st' rest)"

text \<open>
  One pass of the loop body on the outcome so far: once an exception has ended the loop,
  no further file is touched.
\<close>

definition loop_step :: "env \<Rightarrow> error + state \<Rightarrow> string \<Rightarrow> error + state" where
  "loop_step e outcome filename =
     (case outcome of
        Inl err \<Rightarrow> Inl err
      | Inr st \<Rightarrow> process_file e st filename)"

definition convert_exr_normals :: "env \<Rightarrow> state \<Rightarrow> error + state" where
  "convert_exr_normals e st =
     (if \<not> isdir_input e
      then Inr (print (''[ERROR] INPUT_DIR does not exist: '' @ INPUT_DIR) st)
      else
        let files_sel = select_files (listdir_input e) in
        if files_sel = []
        then Inr (print (''No EXR normal maps found in '' @ INPUT_DIR) st)
        else
          case process_files e st files_sel of
            Inl err \<Rightarrow> Inl err
          | Inr st \<Rightarrow>
              let st = (if files st temp_tiff \<noteq> None
                        then st\<lparr>files := os_remove temp_tiff (files st)\<rparr>
                        else st)
              in Inr (print ''Done.'' st))"

subsection \<open>The spec's wording of the cap rule, and concrete inputs\<close>


text \<open>
  A run with one unreadable and one readable file, and a compressor that always succeeds
  and leaves its result under the intermediate file's stem.
\<close>

definition demo_env :: env where
  "demo_env =
     \<lparr>isdir_input = True,
      listdir_input = [''broken_nor_gl.exr'', ''rock_nor_gl.exr''],
      imread = (\<lambda>p. if p = ''assets/polyhaven/textures/rock_nor_gl.exr''
                      then Some [Fin (1 / 2), Fin (1 / 2), Fin 1]
                      else None),
      texconv = (\<lambda>cmd fs. (0, fs(''assets/textures/rtshowcase/temp_normal.dds'' \<mapsto>
                                    DDS [length cmd]))),
      invalid_cast = 0\<rparr>"

text \<open>Two names spelled with U+212A KELVIN SIGN in place of the letter k.\<close>

definition kelvin_brick_name :: string where
  "kelvin_brick_name = ''castle_bric'' @ KELVIN_SIGN @ ''_nor_gl.exr''"

definition kelvin_brick_plaster_name :: string where
  "kelvin_brick_plaster_name = ''castle_bric'' @ KELVIN_SIGN @ ''_grey_plaster_nor_gl.exr''"

definition empty_state :: state where
  "empty_state = \<lparr>files = Map.empty, stdout = []\<rparr>"

section \<open>Properties of the precision fixer\<close>

lemma saved_model_after_save:
  "saved_model (onnx_save_model m path loc fs) path = Some m"
  by (simp add: saved_model_def onnx_save_model_def)

text \<open>
  C2. When the graph loaded from the input path declares no outputs, smart\_convert ends
  with a ValueError whatever the converter is, and the file system it leaves is the one it
  found: nothing is converted or saved, and the output path holds what it held before.
\<close>

theorem smart_convert_no_outputs_aborts:
  assumes "fs input_path = Some (ModelFile model)"
    and "graph_output (graph model) = []"
  shows "smart_convert conv fs =
           (Some (ValueError
              ''CRITICAL: The source model has no outputs! You might need to re-export from PyTorch.''), fs)"
  using assms by (simp add: smart_convert_def onnx_load_def)

theorem smart_convert_no_outputs_aborts_witness:
  "[input_path \<mapsto> ModelFile (unet [])] input_path = Some (ModelFile (unet []))
   \<and> graph_output (graph (unet [])) = []
   \<and> smart_convert convert_float_to_float16 [input_path \<mapsto> ModelFile (unet [])] =
       (Some (ValueError
          ''CRITICAL: The source model has no outputs! You might need to re-export from PyTorch.''),
        [input_path \<mapsto> ModelFile (unet [])])"
proof -
  have a: "[input_path \<mapsto> ModelFile (unet [])] input_path = Some (ModelFile (unet []))"
    by simp
  have b: "graph_output (graph (unet [])) = []"
    by (simp add: unet_def)
  from smart_convert_no_outputs_aborts
    [where fs = "[input_path \<mapsto> ModelFile (unet [])]" and model = "unet []"
       and conv = convert_float_to_float16] a b
  show ?thesis by simp
qed

text \<open>
  C1. With the converter as the spec describes it, smart\_convert on a source graph with
  N declared outputs, N > 0, ends without error and the model saved at the output path
  declares exactly N outputs; since the script converts with keep\_io\_types=True, the
  element types of the declared inputs and outputs are those of the source graph.
\<close>

theorem smart_convert_preserves_outputs:
  assumes "fs input_path = Some (ModelFile model)"
    and "length (graph_output (graph model)) = N"
    and "N > 0"
  shows "\<exists>fs' m'. smart_convert convert_float_to_float16 fs = (None, fs')
           \<and> saved_model fs' output_path = Some m'
           \<and> length (graph_output (graph m')) = N
           \<and> map vi_elem_type (graph_output (graph m')) = map vi_elem_type (graph_output (graph model))
           \<and> map vi_elem_type (graph_input (graph m')) = map vi_elem_type (graph_input (graph model))"
proof -
  let ?m = "convert_float_to_float16 True model"
  have io: "graph_output (graph ?m) = graph_output (graph model)"
           "graph_input (graph ?m) = graph_input (graph model)"
    by (simp_all add: convert_float_to_float16_def Let_def)
  from assms io have "smart_convert convert_float_to_float16 fs =
      (None, onnx_save_model ?m output_path data_location fs)"
    by (auto simp add: smart_convert_def onnx_load_def Let_def)
  with io assms(2) show ?thesis
    by (simp add: saved_model_after_save)
qed

theorem smart_convert_preserves_outputs_witness:
  "[input_path \<mapsto> ModelFile (unet [out_vi])] input_path = Some (ModelFile (unet [out_vi]))
   \<and> length (graph_output (graph (unet [out_vi]))) = 1
   \<and> (\<exists>fs' m'. smart_convert convert_float_to_float16 [input_path \<mapsto> ModelFile (unet [out_vi])] = (None, fs')
           \<and> saved_model fs' output_path = Some m'
           \<and> length (graph_output (graph m')) = 1
           \<and> map vi_elem_type (graph_output (graph m')) = [FLOAT]
           \<and> map vi_elem_type (graph_input (graph m')) = [FLOAT])"
proof -
  have a: "[input_path \<mapsto> ModelFile (unet [out_vi])] input_path = Some (ModelFile (unet [out_vi]))"
    by simp
  have b: "length (graph_output (graph (unet [out_vi]))) = 1"
    by (simp add: unet_def)
  have c: "map vi_elem_type (graph_output (graph (unet [out_vi]))) = [FLOAT]"
          "map vi_elem_type (graph_input (graph (unet [out_vi]))) = [FLOAT]"
    by (simp_all add: unet_def out_vi_def sample_vi_def)
  from smart_convert_preserves_outputs
    [where fs = "[input_path \<mapsto> ModelFile (unet [out_vi])]" and model = "unet [out_vi]"
       and N = 1] a b c
  show ?thesis by simp
qed

section \<open>Properties of the repair scripts\<close>

text \<open>
  C7. Both repair scripts copy the original graph's output list back exactly when the
  list is empty after the transformation. repair\_and\_convert, for any converter, saves a
  graph whose output list is the original one if the converted graph has none, and the
  converted graph's list otherwise. transplant\_metadata, once both files load and the
  original has an operator-set entry, saves a graph whose output list is the original's if
  the patched graph had none, and the patched graph's own list otherwise.
\<close>

theorem repair_scripts_regraft_outputs:
  "(fs input_path = Some (ModelFile model) \<longrightarrow>
      (\<exists>fs' m'. repair_and_convert conv fs = (None, fs')
         \<and> saved_model fs' output_path = Some m'
         \<and> graph_output (graph m') =
             (if graph_output (graph (conv False model)) = []
              then graph_output (graph model)
              else graph_output (graph (conv False model)))))
   \<and> (fs2 input_orig = Some (ModelFile model_orig)
        \<and> fs2 input_fp16 = Some (ModelFile model_fp16)
        \<and> opset_import model_orig \<noteq> [] \<longrightarrow>
      (\<exists>fs' m'. transplant_metadata fs2 = (None, fs')
         \<and> saved_model fs' input_fp16 = Some m'
         \<and> graph_output (graph m') =
             (if graph_output (graph model_fp16) = []
              then graph_output (graph model_orig)
              else graph_output (graph model_fp16))))"
proof (intro conjI impI)
  assume "fs input_path = Some (ModelFile model)"
  then show "\<exists>fs' m'. repair_and_convert conv fs = (None, fs')
         \<and> saved_model fs' output_path = Some m'
         \<and> graph_output (graph m') =
             (if graph_output (graph (conv False model)) = []
              then graph_output (graph model)
              else graph_output (graph (conv False model)))"
    by (simp add: repair_and_convert_def onnx_load_def Let_def saved_model_after_save)
next
  assume "fs2 input_orig = Some (ModelFile model_orig)
        \<and> fs2 input_fp16 = Some (ModelFile model_fp16)
        \<and> opset_import model_orig \<noteq> []"
  then show "\<exists>fs' m'. transplant_metadata fs2 = (None, fs')
         \<and> saved_model fs' input_fp16 = Some m'
         \<and> graph_output (graph m') =
             (if graph_output (graph model_fp16) = []
              then graph_output (graph model_orig)
              else graph_output (graph model_fp16))"
    by (simp add: transplant_metadata_def onnx_load_def Let_def saved_model_after_save)
qed

theorem repair_scripts_regraft_outputs_witness:
  "(\<exists>fs' m'. repair_and_convert wiping_converter [input_path \<mapsto> ModelFile (unet [out_vi])] = (None, fs')
      \<and> saved_model fs' output_path = Some m'
      \<and> graph_output (graph m') = [out_vi])
   \<and> (\<exists>fs' m'. transplant_metadata
          [input_orig \<mapsto> ModelFile (unet [out_vi]),
           input_fp16 \<mapsto> ModelFile (wiping_converter False (unet [out_vi]))] = (None, fs')
      \<and> saved_model fs' input_fp16 = Some m'
      \<and> graph_output (graph m') = [out_vi])"
proof -
  let ?fs = "[input_path \<mapsto> ModelFile (unet [out_vi])]"
  let ?fs2 = "[input_orig \<mapsto> ModelFile (unet [out_vi]),
               input_fp16 \<mapsto> ModelFile (wiping_converter False (unet [out_vi]))]"
  have a: "?fs input_path = Some (ModelFile (unet [out_vi]))"
    by simp
  have ne: "input_orig \<noteq> input_fp16"
    by (simp add: input_orig_def input_fp16_def)
  have b: "?fs2 input_orig = Some (ModelFile (unet [out_vi]))
           \<and> ?fs2 input_fp16 = Some (ModelFile (wiping_converter False (unet [out_vi])))
           \<and> opset_import (unet [out_vi]) \<noteq> []"
    using ne by (simp add: unet_def)
  have c: "graph_output (graph (wiping_converter False (unet [out_vi]))) = []"
    by (simp add: wiping_converter_def)
  have d: "graph_output (graph (unet [out_vi])) = [out_vi]"
    by (simp add: unet_def)
  from repair_scripts_regraft_outputs
    [where fs = ?fs and model = "unet [out_vi]" and conv = wiping_converter
       and ?fs2.0 = ?fs2 and model_orig = "unet [out_vi]"
       and ?model_fp16.0 = "wiping_converter False (unet [out_vi])"]
    a b c d
  show ?thesis by simp
qed

section \<open>Properties of the texture batch converter\<close>

subsection \<open>Strings and paths\<close>

lemma endswith_suffix: "endswith s p \<longleftrightarrow> suffix p s"
  unfolding endswith_def suffix_def
  by (metis append_eq_conv_conj append_take_drop_id diff_add_inverse2 length_append
        length_drop le_add2)

lemma str_in_sublist: "str_in p s \<longleftrightarrow> sublist p s"
  by (induction s) (auto simp: sublist_Cons_right)

lemma lower_Cons_plain:
  "c \<noteq> CHR 0xE2 \<Longrightarrow> c \<noteq> CHR 0xC4 \<Longrightarrow> lower (c # s) = lower_char c # lower s"
  by (simp add: lower.simps(2) KELVIN_SIGN_def CAPITAL_I_WITH_DOT_def)

lemma lower_kelvin: "lower (CHR 0xE2 # CHR 0x84 # CHR 0xAA # s) = CHR ''k'' # lower s"
  by (simp add: lower.simps(2) KELVIN_SIGN_def)

lemma lower_capital_i_dot:
  "lower (CHR 0xC4 # CHR 0xB0 # s) = CHR ''i'' # CHR 0xCC # CHR 0x87 # lower s"
  by (simp add: lower.simps(2) KELVIN_SIGN_def CAPITAL_I_WITH_DOT_def SMALL_I_COMBINING_DOT_def)

lemma lower_char_dot: "lower_char c = CHR ''.'' \<longleftrightarrow> c = CHR ''.''"
  by (auto simp: lower_char_def split: if_splits)

lemma lower_step:
  "(\<exists>t. c # s = KELVIN_SIGN @ t \<and> lower (c # s) = CHR ''k'' # lower t)
   \<or> (\<exists>t. c # s = CAPITAL_I_WITH_DOT @ t \<and> lower (c # s) = SMALL_I_COMBINING_DOT @ lower t)
   \<or> (\<not> prefix KELVIN_SIGN (c # s) \<and> \<not> prefix CAPITAL_I_WITH_DOT (c # s)
       \<and> lower (c # s) = lower_char c # lower s)"
proof (cases "prefix KELVIN_SIGN (c # s)")
  case True
  then obtain t where t: "c # s = KELVIN_SIGN @ t" by (auto simp: prefix_def)
  then have "drop 2 s = t" by (simp add: KELVIN_SIGN_def)
  with True have "lower (c # s) = CHR ''k'' # lower t" by (simp add: lower.simps(2))
  with t show ?thesis by blast
next
  case k: False
  show ?thesis
  proof (cases "prefix CAPITAL_I_WITH_DOT (c # s)")
    case True
    then obtain t where t: "c # s = CAPITAL_I_WITH_DOT @ t" by (auto simp: prefix_def)
    then have "drop 1 s = t" by (simp add: CAPITAL_I_WITH_DOT_def)
    with True k have "lower (c # s) = SMALL_I_COMBINING_DOT @ lower t"
      by (simp add: lower.simps(2))
    with t show ?thesis by blast
  next
    case False
    with k show ?thesis by (simp add: lower.simps(2))
  qed
qed

lemma lower_exr_suffix_split:
  "suffix ''.exr'' (lower f) \<Longrightarrow> \<exists>stem ext. f = stem @ ext \<and> lower ext = ''.exr''"
proof (induction f rule: length_induct)
  case (1 f)
  show ?case
  proof (cases f)
    case Nil
    with 1(2) show ?thesis by simp
  next
    case (Cons c s)
    from lower_step [of c s] show ?thesis
    proof (elim disjE exE conjE)
      fix t assume t: "c # s = KELVIN_SIGN @ t" and l: "lower (c # s) = CHR ''k'' # lower t"
      from 1(2) Cons l have "suffix ''.exr'' (lower t)"
        by (simp add: suffix_Cons)
      moreover from t Cons have "length t < length f" by (simp add: KELVIN_SIGN_def)
      ultimately obtain stem ext where "t = stem @ ext" "lower ext = ''.exr''"
        using 1(1) by blast
      with t Cons have "f = (KELVIN_SIGN @ stem) @ ext \<and> lower ext = ''.exr''" by simp
      then show ?thesis by blast
    next
      fix t assume t: "c # s = CAPITAL_I_WITH_DOT @ t"
        and l: "lower (c # s) = SMALL_I_COMBINING_DOT @ lower t"
      from 1(2) Cons l have "suffix ''.exr'' (lower t)"
        by (simp add: suffix_Cons SMALL_I_COMBINING_DOT_def)
      moreover from t Cons have "length t < length f" by (simp add: CAPITAL_I_WITH_DOT_def)
      ultimately obtain stem ext where "t = stem @ ext" "lower ext = ''.exr''"
        using 1(1) by blast
      with t Cons have "f = (CAPITAL_I_WITH_DOT @ stem) @ ext \<and> lower ext = ''.exr''" by simp
      then show ?thesis by blast
    next
      assume l: "lower (c # s) = lower_char c # lower s"
      from 1(2) Cons l have "''.exr'' = lower (c # s) \<or> suffix ''.exr'' (lower s)"
        by (simp add: suffix_Cons)
      then show ?thesis
      proof
        assume "''.exr'' = lower (c # s)"
        with Cons have "f = [] @ f \<and> lower f = ''.exr''" by simp
        then show ?thesis by blast
      next
        assume "suffix ''.exr'' (lower s)"
        moreover from Cons have "length s < length f" by simp
        ultimately obtain stem ext where "s = stem @ ext" "lower ext = ''.exr''"
          using 1(1) by blast
        with Cons have "f = (c # stem) @ ext \<and> lower ext = ''.exr''" by simp
        then show ?thesis by blast
      qed
    qed
  qed
qed

lemma lower_append_dot:
  "lower (stem @ CHR ''.'' # rest) = lower stem @ lower (CHR ''.'' # rest)"
proof (induction stem rule: length_induct)
  case (1 stem)
  show ?case
  proof (cases stem)
    case Nil
    then show ?thesis by simp
  next
    case (Cons c s)
    from lower_step [of c s] show ?thesis
    proof (elim disjE exE conjE)
      fix t assume t: "c # s = KELVIN_SIGN @ t" and l: "lower (c # s) = CHR ''k'' # lower t"
      from t have "stem @ CHR ''.'' # rest = CHR 0xE2 # CHR 0x84 # CHR 0xAA # (t @ CHR ''.'' # rest)"
        by (simp add: Cons KELVIN_SIGN_def)
      then have "lower (stem @ CHR ''.'' # rest) = CHR ''k'' # lower (t @ CHR ''.'' # rest)"
        by (simp only: lower_kelvin)
      moreover from t Cons have "length t < length stem" by (simp add: KELVIN_SIGN_def)
      then have "lower (t @ CHR ''.'' # rest) = lower t @ lower (CHR ''.'' # rest)"
        using 1 by blast
      ultimately show ?thesis using l Cons by simp
    next
      fix t assume t: "c # s = CAPITAL_I_WITH_DOT @ t"
        and l: "lower (c # s) = SMALL_I_COMBINING_DOT @ lower t"
      from t have "stem @ CHR ''.'' # rest = CHR 0xC4 # CHR 0xB0 # (t @ CHR ''.'' # rest)"
        by (simp add: Cons CAPITAL_I_WITH_DOT_def)
      then have "lower (stem @ CHR ''.'' # rest)
                   = CHR ''i'' # CHR 0xCC # CHR 0x87 # lower (t @ CHR ''.'' # rest)"
        by (simp only: lower_capital_i_dot)
      moreover from t Cons have "length t < length stem" by (simp add: CAPITAL_I_WITH_DOT_def)
      then have "lower (t @ CHR ''.'' # rest) = lower t @ lower (CHR ''.'' # rest)"
        using 1 by blast
      ultimately show ?thesis using l Cons by (simp add: SMALL_I_COMBINING_DOT_def)
    next
      assume nk: "\<not> prefix KELVIN_SIGN (c # s)" and ni: "\<not> prefix CAPITAL_I_WITH_DOT (c # s)"
        and l: "lower (c # s) = lower_char c # lower s"
      have nk': "\<not> prefix KELVIN_SIGN (c # s @ CHR ''.'' # rest)"
        using nk by (cases s; cases "tl s") (auto simp: KELVIN_SIGN_def)
      have ni': "\<not> prefix CAPITAL_I_WITH_DOT (c # s @ CHR ''.'' # rest)"
        using ni by (cases s) (auto simp: CAPITAL_I_WITH_DOT_def)
      from nk' ni' have "lower (c # s @ CHR ''.'' # rest) = lower_char c # lower (s @ CHR ''.'' # rest)"
        by (simp add: lower.simps(2))
      moreover from Cons have "length s < length stem" by simp
      then have "lower (s @ CHR ''.'' # rest) = lower s @ lower (CHR ''.'' # rest)"
        using 1 by blast
      ultimately show ?thesis using l Cons by simp
    qed
  qed
qed

lemma lower_exr_head: "lower ext = ''.exr'' \<Longrightarrow> \<exists>rest. ext = CHR ''.'' # rest"
proof (cases ext)
  case Nil
  assume "lower ext = ''.exr''" with Nil show ?thesis by simp
next
  case (Cons c s)
  assume h: "lower ext = ''.exr''"
  from lower_step [of c s] h Cons have "lower_char c = CHR ''.''"
    by (auto simp: SMALL_I_COMBINING_DOT_def)
  then have "c = CHR ''.''" by (simp only: lower_char_dot)
  with Cons show ?thesis by simp
qed

lemma suffix_lower_exr:
  "suffix ''.exr'' (lower f) \<longleftrightarrow> (\<exists>stem ext. f = stem @ ext \<and> lower ext = ''.exr'')"
proof
  assume "suffix ''.exr'' (lower f)"
  then show "\<exists>stem ext. f = stem @ ext \<and> lower ext = ''.exr''"
    by (rule lower_exr_suffix_split)
next
  assume "\<exists>stem ext. f = stem @ ext \<and> lower ext = ''.exr''"
  then obtain stem ext where f: "f = stem @ ext" and e: "lower ext = ''.exr''" by blast
  from lower_exr_head [OF e] obtain rest where r: "ext = CHR ''.'' # rest" by blast
  have "lower f = lower stem @ lower ext"
    unfolding f r by (rule lower_append_dot)
  with e show "suffix ''.exr'' (lower f)"
    by (simp add: suffix_def)
qed

lemma lower_char_upper:
  "lower_char CHR ''A'' = CHR ''a''" "lower_char CHR ''B'' = CHR ''b''"
  "lower_char CHR ''C'' = CHR ''c''" "lower_char CHR ''D'' = CHR ''d''"
  "lower_char CHR ''E'' = CHR ''e''" "lower_char CHR ''F'' = CHR ''f''"
  "lower_char CHR ''G'' = CHR ''g''" "lower_char CHR ''H'' = CHR ''h''"
  "lower_char CHR ''I'' = CHR ''i''" "lower_char CHR ''J'' = CHR ''j''"
  "lower_char CHR ''K'' = CHR ''k''" "lower_char CHR ''L'' = CHR ''l''"
  "lower_char CHR ''M'' = CHR ''m''" "lower_char CHR ''N'' = CHR ''n''"
  "lower_char CHR ''O'' = CHR ''o''" "lower_char CHR ''P'' = CHR ''p''"
  "lower_char CHR ''Q'' = CHR ''q''" "lower_char CHR ''R'' = CHR ''r''"
  "lower_char CHR ''S'' = CHR ''s''" "lower_char CHR ''T'' = CHR ''t''"
  "lower_char CHR ''U'' = CHR ''u''" "lower_char CHR ''V'' = CHR ''v''"
  "lower_char CHR ''W'' = CHR ''w''" "lower_char CHR ''X'' = CHR ''x''"
  "lower_char CHR ''Y'' = CHR ''y''" "lower_char CHR ''Z'' = CHR ''z''"
  by (simp_all add: lower_char_def)

lemma lower_char_fixed:
  "lower_char CHR ''a'' = CHR ''a''" "lower_char CHR ''b'' = CHR ''b''"
  "lower_char CHR ''c'' = CHR ''c''" "lower_char CHR ''d'' = CHR ''d''"
  "lower_char CHR ''e'' = CHR ''e''" "lower_char CHR ''f'' = CHR ''f''"
  "lower_char CHR ''g'' = CHR ''g''" "lower_char CHR ''h'' = CHR ''h''"
  "lower_char CHR ''i'' = CHR ''i''" "lower_char CHR ''j'' = CHR ''j''"
  "lower_char CHR ''k'' = CHR ''k''" "lower_char CHR ''l'' = CHR ''l''"
  "lower_char CHR ''m'' = CHR ''m''" "lower_char CHR ''n'' = CHR ''n''"
  "lower_char CHR ''o'' = CHR ''o''" "lower_char CHR ''p'' = CHR ''p''"
  "lower_char CHR ''q'' = CHR ''q''" "lower_char CHR ''r'' = CHR ''r''"
  "lower_char CHR ''s'' = CHR ''s''" "lower_char CHR ''t'' = CHR ''t''"
  "lower_char CHR ''u'' = CHR ''u''" "lower_char CHR ''v'' = CHR ''v''"
  "lower_char CHR ''w'' = CHR ''w''" "lower_char CHR ''x'' = CHR ''x''"
  "lower_char CHR ''y'' = CHR ''y''" "lower_char CHR ''z'' = CHR ''z''"
  "lower_char CHR ''0'' = CHR ''0''" "lower_char CHR ''1'' = CHR ''1''"
  "lower_char CHR ''2'' = CHR ''2''" "lower_char CHR ''_'' = CHR ''_''"
  "lower_char CHR ''.'' = CHR ''.''"
  by (simp_all add: lower_char_def)

lemmas lower_eval = lower.simps(1) lower_Cons_plain lower_kelvin lower_char_upper
  lower_char_fixed

lemma lower_names:
  "lower ''wood_shutter_01_nor_gl.exr'' = ''wood_shutter_01_nor_gl.exr''"
  "lower ''castle_brick_02_nor_gl.exr'' = ''castle_brick_02_nor_gl.exr''"
  "lower ''grey_plaster_nor_gl.exr'' = ''grey_plaster_nor_gl.exr''"
  "lower ''Metal_Plate_nor_gl.exr'' = ''metal_plate_nor_gl.exr''"
  "lower ''metal_plate_nor_gl.exr'' = ''metal_plate_nor_gl.exr''"
  "lower ''rock_nor_gl.exr'' = ''rock_nor_gl.exr''"
  "lower ''rock_nor_gl.EXR'' = ''rock_nor_gl.exr''"
  "lower ''rock_diff.exr'' = ''rock_diff.exr''"
  "lower ''notes.txt'' = ''notes.txt''"
  "lower ''wood_shutter_metal_plate_nor_gl.exr'' = ''wood_shutter_metal_plate_nor_gl.exr''"
  "lower kelvin_brick_name = ''castle_brick_nor_gl.exr''"
  "lower kelvin_brick_plaster_name = ''castle_brick_grey_plaster_nor_gl.exr''"
  by (simp_all add: lower_eval KELVIN_SIGN_def kelvin_brick_name_def
        kelvin_brick_plaster_name_def)

lemma str_nat_caps: "str_nat 2048 = ''2048''" "str_nat 1024 = ''1024''"
  by (simp_all add: str_nat.simps)

lemma final_dds_unknown:
  "final_dds_of ''unknown_normal'' = ''assets/textures/rtshowcase/unknown_normal.dds''"
  by (simp add: final_dds_of_def path_join_def OUTPUT_DIR_def suffix_to_prefix)

lemma generated_dds_path:
  "path_join OUTPUT_DIR ''temp_normal.dds'' = ''assets/textures/rtshowcase/temp_normal.dds''"
  by (simp add: path_join_def OUTPUT_DIR_def suffix_to_prefix)

lemma input_paths:
  "path_join INPUT_DIR ''broken_nor_gl.exr'' = ''assets/polyhaven/textures/broken_nor_gl.exr''"
  "path_join INPUT_DIR ''rock_nor_gl.exr'' = ''assets/polyhaven/textures/rock_nor_gl.exr''"
  by (simp_all add: path_join_def INPUT_DIR_def suffix_to_prefix)

subsection \<open>File selection\<close>

lemma is_selected_samples:
  "is_selected ''rock_nor_gl.EXR''"
  "\<not> is_selected ''rock_diff.exr''"
  "\<not> is_selected ''notes.txt''"
  "is_selected ''wood_shutter_metal_plate_nor_gl.exr''"
  by (simp_all add: is_selected_def endswith_def lower_names)

text \<open>
  C8, as the code has it. An entry of the source directory is selected exactly when its
  name ends with an extension that is \<^verbatim>\<open>.exr\<close> once lower-cased (the extension is
  compared without regard to case) and the name itself contains the marker
  \<^verbatim>\<open>_nor_\<close> (compared with regard to case).
\<close>

theorem select_files_iff:
  "f \<in> set (select_files entries) \<longleftrightarrow>
     f \<in> set entries
     \<and> (\<exists>stem ext. f = stem @ ext \<and> lower ext = ''.exr'')
     \<and> (\<exists>pre post. f = pre @ ''_nor_'' @ post)"
  by (simp add: select_files_def is_selected_def endswith_suffix suffix_lower_exr
        str_in_sublist sublist_def)

theorem select_files_iff_witness:
  "(''rock_nor_gl.EXR'' \<in> set (select_files [''notes.txt'', ''rock_nor_gl.EXR'', ''rock_diff.exr'']))
   = (''rock_nor_gl.EXR'' \<in> set [''notes.txt'', ''rock_nor_gl.EXR'', ''rock_diff.exr'']
      \<and> (\<exists>stem ext. ''rock_nor_gl.EXR'' = stem @ ext \<and> lower ext = ''.exr'')
      \<and> (\<exists>pre post. ''rock_nor_gl.EXR'' = pre @ ''_nor_'' @ post))
   \<and> select_files [''notes.txt'', ''rock_nor_gl.EXR'', ''rock_diff.exr''] = [''rock_nor_gl.EXR'']"
proof -
  have "select_files [''notes.txt'', ''rock_nor_gl.EXR'', ''rock_diff.exr''] = [''rock_nor_gl.EXR'']"
    by (simp add: select_files_def is_selected_samples)
  with select_files_iff
         [of "''rock_nor_gl.EXR''" "[''notes.txt'', ''rock_nor_gl.EXR'', ''rock_diff.exr'']"]
  show ?thesis by blast
qed

text \<open>
  C8 as stated fails: the entry \<^verbatim>\<open>rock_nor_gl.EXR\<close> is selected although its name does
  not end with \<^verbatim>\<open>.exr\<close>.
\<close>

theorem select_files_counterexample:
  "select_files [''rock_nor_gl.EXR''] = [''rock_nor_gl.EXR'']
   \<and> \<not> suffix ''.exr'' ''rock_nor_gl.EXR''"
  by (simp add: select_files_def is_selected_samples suffix_to_prefix)

subsection \<open>Classification\<close>


lemma targets_of_samples:
  "targets_of ''wood_shutter_01_nor_gl.exr'' = [''rt_gallery_floor_normal_bc5'']"
  "targets_of ''metal_plate_nor_gl.exr'' =
     [''rt_gallery_cylinder_brushed_normal_bc5'', ''rt_gallery_cube_plastic_normal_bc5'']"
  "targets_of ''wood_shutter_metal_plate_nor_gl.exr'' = [''rt_gallery_floor_normal_bc5'']"
  "targets_of kelvin_brick_name = [''rt_gallery_leftwall_normal_bc5'']"
  "targets_of kelvin_brick_plaster_name = [''rt_gallery_leftwall_normal_bc5'']"
  by (simp_all add: targets_of_def lower_names)

text \<open>
  C5, as the code has it. The categories are tried on the lower-cased name in the order
  wood\_shutter, castle\_brick, grey\_plaster, metal\_plate, and the first that occurs
  decides: wood\_shutter gives the single floor target; castle\_brick without wood\_shutter
  the single leftwall target; grey\_plaster without the two before it the single rightwall
  target; metal\_plate without the three before it the two targets for cylinder and cube.
\<close>

theorem targets_of_first_match:
  "(str_in ''wood_shutter'' (lower f) \<longrightarrow> targets_of f = [''rt_gallery_floor_normal_bc5''])
   \<and> (\<not> str_in ''wood_shutter'' (lower f) \<and> str_in ''castle_brick'' (lower f) \<longrightarrow>
        targets_of f = [''rt_gallery_leftwall_normal_bc5''])
   \<and> (\<not> str_in ''wood_shutter'' (lower f) \<and> \<not> str_in ''castle_brick'' (lower f)
        \<and> str_in ''grey_plaster'' (lower f) \<longrightarrow>
        targets_of f = [''rt_gallery_rightwall_normal_bc5''])
   \<and> (\<not> str_in ''wood_shutter'' (lower f) \<and> \<not> str_in ''castle_brick'' (lower f)
        \<and> \<not> str_in ''grey_plaster'' (lower f) \<and> str_in ''metal_plate'' (lower f) \<longrightarrow>
        targets_of f = [''rt_gallery_cylinder_brushed_normal_bc5'',
                        ''rt_gallery_cube_plastic_normal_bc5''])"
  by (simp add: targets_of_def Let_def)

theorem targets_of_first_match_witness:
  "targets_of ''wood_shutter_01_nor_gl.exr'' = [''rt_gallery_floor_normal_bc5'']
   \<and> targets_of ''castle_brick_02_nor_gl.exr'' = [''rt_gallery_leftwall_normal_bc5'']
   \<and> targets_of ''grey_plaster_nor_gl.exr'' = [''rt_gallery_rightwall_normal_bc5'']
   \<and> targets_of ''Metal_Plate_nor_gl.exr'' =
        [''rt_gallery_cylinder_brushed_normal_bc5'', ''rt_gallery_cube_plastic_normal_bc5'']
   \<and> targets_of kelvin_brick_plaster_name = [''rt_gallery_leftwall_normal_bc5'']"
proof -
  have k: "\<not> str_in ''wood_shutter'' (lower kelvin_brick_plaster_name)
           \<and> str_in ''castle_brick'' (lower kelvin_brick_plaster_name)"
    by (simp add: lower_names)
  from targets_of_first_match [of kelvin_brick_plaster_name] k
  have 5: "targets_of kelvin_brick_plaster_name = [''rt_gallery_leftwall_normal_bc5'']"
    by blast
  have w: "str_in ''wood_shutter'' (lower ''wood_shutter_01_nor_gl.exr'')"
    by (simp add: lower_names)
  have c: "\<not> str_in ''wood_shutter'' (lower ''castle_brick_02_nor_gl.exr'')
           \<and> str_in ''castle_brick'' (lower ''castle_brick_02_nor_gl.exr'')"
    by (simp add: lower_names)
  have g: "\<not> str_in ''wood_shutter'' (lower ''grey_plaster_nor_gl.exr'')
           \<and> \<not> str_in ''castle_brick'' (lower ''grey_plaster_nor_gl.exr'')
           \<and> str_in ''grey_plaster'' (lower ''grey_plaster_nor_gl.exr'')"
    by (simp add: lower_names)
  have m: "\<not> str_in ''wood_shutter'' (lower ''Metal_Plate_nor_gl.exr'')
           \<and> \<not> str_in ''castle_brick'' (lower ''Metal_Plate_nor_gl.exr'')
           \<and> \<not> str_in ''grey_plaster'' (lower ''Metal_Plate_nor_gl.exr'')
           \<and> str_in ''metal_plate'' (lower ''Metal_Plate_nor_gl.exr'')"
    by (simp add: lower_names)
  from targets_of_first_match [of "''wood_shutter_01_nor_gl.exr''"] w
  have 1: "targets_of ''wood_shutter_01_nor_gl.exr'' = [''rt_gallery_floor_normal_bc5'']"
    by blast
  from targets_of_first_match [of "''castle_brick_02_nor_gl.exr''"] c
  have 2: "targets_of ''castle_brick_02_nor_gl.exr'' = [''rt_gallery_leftwall_normal_bc5'']"
    by blast
  from targets_of_first_match [of "''grey_plaster_nor_gl.exr''"] g
  have 3: "targets_of ''grey_plaster_nor_gl.exr'' = [''rt_gallery_rightwall_normal_bc5'']"
    by blast
  from targets_of_first_match [of "''Metal_Plate_nor_gl.exr''"] m
  have 4: "targets_of ''Metal_Plate_nor_gl.exr'' =
        [''rt_gallery_cylinder_brushed_normal_bc5'', ''rt_gallery_cube_plastic_normal_bc5'']"
    by blast
  from 1 2 3 4 5 show ?thesis by blast
qed

text \<open>
  C5 as stated fails: a selected name that contains both \<^verbatim>\<open>wood_shutter\<close> and
  \<^verbatim>\<open>metal_plate\<close> produces one target, not two.
\<close>

theorem targets_of_counterexample:
  "is_selected ''wood_shutter_metal_plate_nor_gl.exr''
   \<and> sublist ''metal_plate'' ''wood_shutter_metal_plate_nor_gl.exr''
   \<and> length (targets_of ''wood_shutter_metal_plate_nor_gl.exr'') = 1"
proof -
  have "str_in ''metal_plate'' ''wood_shutter_metal_plate_nor_gl.exr''"
    by simp
  then have "sublist ''metal_plate'' ''wood_shutter_metal_plate_nor_gl.exr''"
    by (simp only: str_in_sublist)
  then show ?thesis
    by (simp add: is_selected_samples targets_of_samples)
qed

subsection \<open>Resolution cap\<close>





subsection \<open>32-bit floating point\<close>

lemmas f32_eval = f32_round_def exponent_def ilog2.simps pow2_def round_half_even_def Let_def

text \<open>
  Rounding at work: one third is not a value of the format, the largest finite value is
  \<open>2 ^ 128 - 2 ^ 104\<close>, and the least positive one is \<open>1 / 2 ^ 149\<close>.
\<close>

lemma f32_round_samples:
  "f32_round (1 / 3) = Fin (11184811 / 33554432)"
  "f32_round (2 ^ 128 - 2 ^ 103) = PInf"
  "f32_round (2 ^ 128 - 2 ^ 103 - 1) = Fin (2 ^ 128 - 2 ^ 104)"
  "f32_round (3 / 2 ^ 150) = Fin (1 / 2 ^ 148)"
  "f32_round (1 / 2 ^ 150) = Fin 0"
  by (simp_all add: f32_eval)

lemma ilog2_bounds: "0 < n \<Longrightarrow> 2 ^ ilog2 n \<le> n \<and> n < 2 ^ Suc (ilog2 n)"
proof (induction n rule: ilog2.induct)
  case (1 n)
  show ?case
  proof (cases "n < 2")
    case True
    with 1(2) show ?thesis by (simp add: ilog2.simps)
  next
    case False
    then have "0 < n div 2" by simp
    with 1(1) False have "2 ^ ilog2 (n div 2) \<le> n div 2 \<and> n div 2 < 2 ^ Suc (ilog2 (n div 2))"
      by simp
    with False show ?thesis
      by (subst (1 2) ilog2.simps) auto
  qed
qed

lemma ilog2_less: "n < 2 ^ k \<Longrightarrow> 0 < k \<Longrightarrow> ilog2 n < k"
proof (cases "n = 0")
  case True
  assume "0 < k" with True show ?thesis by (simp add: ilog2.simps)
next
  case False
  assume "n < 2 ^ k"
  moreover from ilog2_bounds [of n] False have "2 ^ ilog2 n \<le> n" by simp
  ultimately have "(2::nat) ^ ilog2 n < 2 ^ k" by (rule le_less_trans [rotated])
  then show ?thesis by simp
qed

lemma exponent_bounds:
  assumes "0 < a"
  shows "pow2 (exponent a) \<le> a \<and> a < pow2 (exponent a + 1)"
proof (cases "1 \<le> a")
  case True
  let ?n = "nat \<lfloor>a\<rfloor>"
  from True have n: "0 < ?n" by simp
  from True have e: "exponent a = int (ilog2 ?n)" by (simp add: exponent_def)
  from ilog2_bounds [OF n] have lo: "2 ^ ilog2 ?n \<le> ?n" and hi: "?n < 2 ^ Suc (ilog2 ?n)"
    by simp_all
  from lo have "real (2 ^ ilog2 ?n) \<le> real ?n" by (simp only: of_nat_le_iff)
  also have "real ?n \<le> a" using True by simp
  finally have 1: "pow2 (exponent a) \<le> a" by (simp add: e pow2_def)
  from hi have "int ?n < 2 ^ Suc (ilog2 ?n)"
    by (metis of_nat_less_iff of_nat_numeral of_nat_power)
  then have "\<lfloor>a\<rfloor> < 2 ^ Suc (ilog2 ?n)" using True by simp
  then have "a < 2 ^ Suc (ilog2 ?n)"
    by (metis floor_less_iff of_int_numeral of_int_power)
  then have 2: "a < pow2 (exponent a + 1)"
    by (simp add: e pow2_def nat_add_distrib)
  from 1 2 show ?thesis ..
next
  case False
  define c where "c = \<lceil>1 / a\<rceil>"
  define m where "m = nat (c - 1)"
  from False assms have big: "1 < 1 / a" by simp
  then have c2: "2 \<le> c" unfolding c_def by (simp add: le_ceiling_iff)
  then have m: "0 < m" and mc: "int m = c - 1" by (simp_all add: m_def)
  from False have e: "exponent a = - int (Suc (ilog2 m))"
    by (simp add: exponent_def m_def c_def)
  from ilog2_bounds [OF m] have lo: "2 ^ ilog2 m \<le> m" and hi: "m < 2 ^ Suc (ilog2 m)"
    by simp_all
  from hi have "int m < 2 ^ Suc (ilog2 m)"
    by (metis of_nat_less_iff of_nat_numeral of_nat_power)
  with mc have "c \<le> 2 ^ Suc (ilog2 m)" by linarith
  then have "1 / a \<le> 2 ^ Suc (ilog2 m)"
    unfolding c_def by (metis ceiling_le_iff of_int_numeral of_int_power)
  moreover have p1: "pow2 (exponent a) = 1 / 2 ^ Suc (ilog2 m)"
  proof -
    have "nat (int (ilog2 m) + 1) = Suc (ilog2 m)" by simp
    then show ?thesis unfolding e pow2_def by simp
  qed
  ultimately have 1: "pow2 (exponent a) \<le> a"
  proof -
    assume h: "1 / a \<le> 2 ^ Suc (ilog2 m)" and p: "pow2 (exponent a) = 1 / 2 ^ Suc (ilog2 m)"
    from h assms have "1 / 2 ^ Suc (ilog2 m) \<le> a" by (simp add: field_simps)
    then show ?thesis by (simp only: p)
  qed
  from lo have "int (2 ^ ilog2 m) \<le> int m" by (simp only: of_nat_le_iff)
  then have "(2::int) ^ ilog2 m \<le> int m" by simp
  with mc have "2 ^ ilog2 m < c" by linarith
  then have "2 ^ ilog2 m < 1 / a"
    unfolding c_def by (metis less_ceiling_iff of_int_numeral of_int_power)
  moreover have p2: "pow2 (exponent a + 1) = 1 / 2 ^ ilog2 m"
  proof -
    have "exponent a + 1 = - int (ilog2 m)" by (simp add: e)
    then show ?thesis by (simp add: pow2_def)
  qed
  ultimately have 2: "a < pow2 (exponent a + 1)"
  proof -
    assume h: "2 ^ ilog2 m < 1 / a" and p: "pow2 (exponent a + 1) = 1 / 2 ^ ilog2 m"
    from h assms have "a < 1 / 2 ^ ilog2 m" by (simp add: field_simps)
    then show ?thesis by (simp only: p)
  qed
  from 1 2 show ?thesis ..
qed


lemma pow2_powr: "pow2 k = 2 powr (of_int k)"
  by (simp add: pow2_def powr_realpow [symmetric] powr_minus divide_inverse)

lemma pow2_less_cancel: "pow2 a < pow2 b \<Longrightarrow> a < b"
  by (simp add: pow2_powr)

lemma round_half_even_error: "\<bar>of_int (round_half_even r) - r\<bar> \<le> 1 / 2"
  unfolding round_half_even_def Let_def
  by (auto simp: abs_le_iff)

lemma round_half_even_upper: "r \<le> of_int N \<Longrightarrow> round_half_even r \<le> N"
proof -
  assume h: "r \<le> of_int N"
  then have fl: "\<lfloor>r\<rfloor> \<le> N" by (simp add: floor_le_iff) 
  show ?thesis
  proof (cases "\<lfloor>r\<rfloor> = N")
    case True
    with h have "r - of_int \<lfloor>r\<rfloor> \<le> 0" by simp
    then have "r - of_int \<lfloor>r\<rfloor> < 1 / 2" by linarith
    with True show ?thesis by (simp add: round_half_even_def Let_def)
  next
    case False
    with fl have "\<lfloor>r\<rfloor> + 1 \<le> N" by simp
    then show ?thesis by (simp add: round_half_even_def Let_def)
  qed
qed

lemma round_half_even_lower: "of_int N \<le> r \<Longrightarrow> N \<le> round_half_even r"
proof -
  assume "of_int N \<le> r"
  then have "N \<le> \<lfloor>r\<rfloor>" by (simp add: le_floor_iff)
  then show ?thesis by (simp add: round_half_even_def Let_def)
qed

lemma f32_round_range:
  assumes "0 \<le> x" and "x \<le> 65535"
  shows "\<exists>y. f32_round x = Fin y \<and> 0 \<le> y \<and> y \<le> 65535 \<and> \<bar>y - x\<bar> \<le> 1 / 512"
proof (cases "x = 0")
  case True
  then show ?thesis by (simp add: f32_round_def)
next
  case False
  with assms have pos: "0 < x" by simp
  define e where "e = max (exponent \<bar>x\<bar>) (- 126)"
  define K where "K = nat (23 - e)"
  define n where "n = round_half_even (x * 2 ^ K)"
  from exponent_bounds [OF pos] assms(2) have "pow2 (exponent x) < pow2 16"
    by (simp add: pow2_def)
  then have "exponent x < 16" by (rule pow2_less_cancel)
  with pos have e15: "e \<le> 15" and e126: "- 126 \<le> e" by (simp_all add: e_def)
  then have K8: "8 \<le> K" and eK: "e - 23 = - int K" by (simp_all add: K_def)
  have ulp: "pow2 (e - 23) = 1 / 2 ^ K"
    using K8 by (simp add: eK pow2_def)
  have big: "(256::real) \<le> 2 ^ K"
  proof -
    have "(2::real) ^ 8 \<le> 2 ^ K" using K8 by (intro power_increasing) simp_all
    then show ?thesis by simp
  qed
  have n0: "0 \<le> n"
    unfolding n_def using pos by (intro round_half_even_lower) simp
  have "x * 2 ^ K \<le> of_int (65535 * 2 ^ K)"
    using assms(2) by simp
  then have nN: "n \<le> 65535 * 2 ^ K"
    unfolding n_def by (rule round_half_even_upper)
  define y :: real where "y = of_int n / 2 ^ K"
  have y0: "0 \<le> y" using n0 by (simp add: y_def)
  have "of_int n \<le> (65535 * 2 ^ K :: real)"
    using nN by (metis of_int_le_iff of_int_mult of_int_numeral of_int_power)
  then have y1: "y \<le> 65535" by (simp add: y_def field_simps)
  have "\<bar>of_int n - x * 2 ^ K\<bar> \<le> 1 / 2"
    unfolding n_def by (rule round_half_even_error)
  moreover have "y - x = (of_int n - x * 2 ^ K) / 2 ^ K"
    by (simp add: y_def field_simps)
  ultimately have "\<bar>y - x\<bar> \<le> (1 / 2) / 2 ^ K"
  proof -
    assume a: "\<bar>of_int n - x * 2 ^ K\<bar> \<le> 1 / 2"
      and b: "y - x = (of_int n - x * 2 ^ K) / 2 ^ K"
    have "\<bar>y - x\<bar> = \<bar>of_int n - x * 2 ^ K\<bar> / 2 ^ K"
      by (simp only: b abs_divide) simp
    also from a have "\<dots> \<le> (1 / 2) / 2 ^ K"
      by (intro divide_right_mono) simp_all
    finally show ?thesis .
  qed
  also have "\<dots> \<le> (1 / 2) / 256"
    using big by (intro divide_left_mono) simp_all
  finally have err: "\<bar>y - x\<bar> \<le> 1 / 512" by simp
  have "\<bar>y\<bar> < pow2 128"
    using y0 y1 by (simp add: pow2_def)
  moreover have E: "max (exponent \<bar>x\<bar>) (- 126) = e"
    by (simp only: e_def)
  moreover have yy: "of_int (round_half_even (x / (1 / 2 ^ K))) * (1 / 2 ^ K) = y"
    by (simp add: y_def n_def)
  ultimately have "f32_round x = Fin y"
    unfolding f32_round_def Let_def E ulp yy using False by simp
  with y0 y1 err show ?thesis by blast
qed

subsection \<open>Pixel arithmetic\<close>

lemma f32_mul_commute: "f32_mul x y = f32_mul y x"
  by (cases x; cases y) (simp_all add: mult.commute)

lemma finite_values_mem: "r \<in> set [r. Fin r \<leftarrow> img] \<longleftrightarrow> Fin r \<in> set img"
  by (induction img) (auto split: f32.splits)

lemma img_min_least:
  assumes "m \<in> set img" and "\<forall>x \<in> set img. f32_le m x"
  shows "img_min img = m"
proof -
  define vs where "vs = [r. Fin r \<leftarrow> img]"
  have vs: "r \<in> set vs \<longleftrightarrow> Fin r \<in> set img" for r
    unfolding vs_def by (rule finite_values_mem)
  have unfold: "img_min img =
     (if NaN \<in> set img then NaN else if NInf \<in> set img then NInf
      else case vs of [] \<Rightarrow> PInf | r # rs \<Rightarrow> Fin (Min (set (r # rs))))"
    by (simp only: img_min_def vs_def)
  have nonan: "NaN \<notin> set img"
    using assms(2) by (cases m) auto
  show ?thesis
  proof (cases m)
    case (Fin r)
    have noninf: "NInf \<notin> set img"
      using assms(2) Fin by auto
    from assms(1) Fin have mem: "r \<in> set vs" by (simp add: vs)
    have least: "\<And>v. v \<in> set vs \<Longrightarrow> r \<le> v"
      using assms(2) Fin by (auto simp: vs)
    have "Min (set vs) = r"
      by (rule Min_eqI) (use mem least in simp_all)
    moreover from mem obtain v vs' where "vs = v # vs'" by (cases vs) auto
    ultimately show ?thesis
      using nonan noninf Fin by (simp add: unfold)
  next
    case PInf
    have all: "x = PInf" if "x \<in> set img" for x
    proof -
      from that assms(2) PInf have "f32_le PInf x" by simp
      then show ?thesis by (cases x) simp_all
    qed
    then have "NInf \<notin> set img" by auto
    moreover have "vs = []"
    proof (cases vs)
      case (Cons v vs')
      then have "Fin v \<in> set img" by (simp add: vs [symmetric])
      with all show ?thesis by auto
    qed simp
    ultimately show ?thesis using nonan PInf by (simp add: unfold)
  next
    case NInf
    with assms(1) nonan show ?thesis by (simp add: unfold)
  next
    case NaN
    with assms(1) nonan show ?thesis by simp
  qed
qed

lemma remap_nan: "NaN \<in> set img \<Longrightarrow> remap img = img"
  by (simp add: remap_def img_min_def)

lemma clip_unit:
  "x \<noteq> NaN \<Longrightarrow> \<exists>c. clip x (Fin 0) (Fin 1) = Fin c \<and> 0 \<le> c \<and> c \<le> 1"
  by (cases x) (auto simp: clip_def f32_maximum_def f32_minimum_def)

lemma clip_nan: "clip NaN lo hi = NaN"
  by (simp add: clip_def f32_maximum_def f32_minimum_def)

lemma quantize_sample:
  assumes "x \<noteq> NaN"
  shows "\<exists>c y. clip x (Fin 0) (Fin 1) = Fin c \<and> 0 \<le> c \<and> c \<le> 1
           \<and> f32_mul (Fin c) (Fin 65535) = Fin y
           \<and> 0 \<le> y \<and> y \<le> 65535 \<and> \<bar>y - c * 65535\<bar> \<le> 1 / 512
           \<and> uint (astype_uint16 invalid (f32_mul (clip x (Fin 0) (Fin 1)) (Fin 65535))) = \<lfloor>y\<rfloor>"
proof -
  from clip_unit [OF assms] obtain c
    where c: "clip x (Fin 0) (Fin 1) = Fin c" "0 \<le> c" "c \<le> 1" by blast
  then have "0 \<le> c * 65535" "c * 65535 \<le> 65535" by simp_all
  from f32_round_range [OF this] obtain y
    where y: "f32_round (c * 65535) = Fin y" "0 \<le> y" "y \<le> 65535" "\<bar>y - c * 65535\<bar> \<le> 1 / 512"
    by blast
  then have fl: "0 \<le> \<lfloor>y\<rfloor>" "\<lfloor>y\<rfloor> \<le> 65535"
    by (simp_all add: floor_le_iff le_floor_iff) 
  then have "uint (word_of_int \<lfloor>y\<rfloor> :: 16 word) = \<lfloor>y\<rfloor>"
    by (simp add: uint_word_of_int)
  with fl y(2) have "uint (astype_uint16 invalid (Fin y)) = \<lfloor>y\<rfloor>"
    by (simp add: astype_uint16_def)
  with c y show ?thesis by auto
qed

lemmas pixel_eval = f32_eval clamp_quantize_def clip_def f32_maximum_def f32_minimum_def
  astype_uint16_def

text \<open>
  C3, as the code has it. The quantised image has one 16-bit value per sample. For a
  sample x that is not NaN, clamping gives a value c between 0 and 1, the product of c and
  65535 rounded to 32-bit floating point is a value y between 0 and 65535 within 1/512 of
  the exact product, and the stored value is the integer part of y: the fraction is cut
  off, not rounded. For a NaN sample the stored value is what the platform's conversion
  of NaN yields.
\<close>

theorem clamp_quantize_truncates:
  "length (clamp_quantize invalid img) = length img
   \<and> (\<forall>i < length img.
         if img ! i = NaN then clamp_quantize invalid img ! i = invalid
         else \<exists>c y. clip (img ! i) (Fin 0) (Fin 1) = Fin c \<and> 0 \<le> c \<and> c \<le> 1
                \<and> f32_mul (Fin c) (Fin 65535) = Fin y
                \<and> 0 \<le> y \<and> y \<le> 65535 \<and> \<bar>y - c * 65535\<bar> \<le> 1 / 512
                \<and> uint (clamp_quantize invalid img ! i) = \<lfloor>y\<rfloor>)"
proof (intro conjI allI impI)
  show "length (clamp_quantize invalid img) = length img"
    by (simp add: clamp_quantize_def)
next
  fix i assume i: "i < length img"
  then have nth: "clamp_quantize invalid img ! i =
      astype_uint16 invalid (f32_mul (clip (img ! i) (Fin 0) (Fin 1)) (Fin 65535))"
    by (simp add: clamp_quantize_def)
  show "if img ! i = NaN then clamp_quantize invalid img ! i = invalid
         else \<exists>c y. clip (img ! i) (Fin 0) (Fin 1) = Fin c \<and> 0 \<le> c \<and> c \<le> 1
                \<and> f32_mul (Fin c) (Fin 65535) = Fin y
                \<and> 0 \<le> y \<and> y \<le> 65535 \<and> \<bar>y - c * 65535\<bar> \<le> 1 / 512
                \<and> uint (clamp_quantize invalid img ! i) = \<lfloor>y\<rfloor>"
  proof (cases "img ! i = NaN")
    case True
    then show ?thesis
      by (simp add: nth clip_nan astype_uint16_def)
  next
    case False
    from quantize_sample [OF False, of invalid] False show ?thesis
      by (simp only: nth if_False)
  qed
qed

theorem clamp_quantize_truncates_witness:
  "clamp_quantize 7 [Fin (1 / 4), Fin (65537 / 131072), Fin (7 / 5), NInf, NaN]
     = [16383, 32768, 65535, 0, 7]"
  using clamp_quantize_truncates [of 7 "[Fin (1 / 4), Fin (65537 / 131072), Fin (7 / 5), NInf, NaN]"]
  by (simp add: pixel_eval)

text \<open>
  C3 as stated fails: the sample 1/4 scales to 16383.75, a value of the format, which the
  code stores as 16383, while rounding gives 16384.
\<close>

theorem clamp_quantize_counterexample:
  "uint (clamp_quantize 0 [Fin (1 / 4)] ! 0) = 16383
   \<and> round (1 / 4 * 65535 :: real) = 16384"
  by (simp add: pixel_eval round_def)

text \<open>
  The stored value is the integer part of the rounded product, not of the exact one: the
  sample 65537/131072 has the exact product 32768 - 1/131072, which rounds to 32768.
\<close>

lemma clamp_quantize_rounded_product:
  "uint (clamp_quantize 0 [Fin (65537 / 131072)] ! 0) = 32768
   \<and> \<lfloor>65537 / 131072 * 65535 :: real\<rfloor> = 32767"
  by (simp add: pixel_eval)

text \<open>
  C4. Let m be the minimum sample of a decoded image, the least of its samples in the
  order of the floating-point comparison. If m < 0, the image before clamping is
  0.5 * x + 0.5 at every sample x, product and sum each in 32-bit floating point; if
  m >= 0, it is the decoded image itself.
\<close>

theorem remap_by_minimum:
  assumes "m \<in> set img" and "\<forall>x \<in> set img. f32_le m x"
  shows "(f32_less m (Fin 0) \<longrightarrow>
            remap img = map (\<lambda>x. f32_add (f32_mul (Fin 0.5) x) (Fin 0.5)) img)
         \<and> (f32_le (Fin 0) m \<longrightarrow> remap img = img)"
proof (intro conjI impI)
  have M: "img_min img = m"
    using assms by (rule img_min_least)
  {
    assume "f32_less m (Fin 0)"
    then show "remap img = map (\<lambda>x. f32_add (f32_mul (Fin 0.5) x) (Fin 0.5)) img"
      by (simp add: remap_def M f32_mul_commute)
  next
    assume "f32_le (Fin 0) m"
    then have "\<not> f32_less m (Fin 0)" by (cases m) auto
    then show "remap img = img"
      by (simp add: remap_def M)
  }
qed

theorem remap_by_minimum_witness:
  "remap [Fin (1 / 2), Fin (- 13421773 / 67108864), Fin 1]
     = [Fin (3 / 4), Fin (13421773 / 33554432), Fin 1]
   \<and> remap [Fin (1 / 2), Fin 0, PInf] = [Fin (1 / 2), Fin 0, PInf]"
proof -
  have a: "Fin (- 13421773 / 67108864) \<in> set [Fin (1 / 2), Fin (- 13421773 / 67108864), Fin 1]"
    "\<forall>x \<in> set [Fin (1 / 2), Fin (- 13421773 / 67108864), Fin 1].
        f32_le (Fin (- 13421773 / 67108864)) x"
    by simp_all
  have b: "Fin 0 \<in> set [Fin (1 / 2), Fin 0, PInf]"
    "\<forall>x \<in> set [Fin (1 / 2), Fin 0, PInf]. f32_le (Fin 0) x"
    by simp_all
  from remap_by_minimum [OF a] remap_by_minimum [OF b]
  show ?thesis by (simp add: f32_eval)
qed

subsection \<open>The batch loop\<close>

lemma process_file_unreadable:
  "imread e (path_join INPUT_DIR f) = None \<Longrightarrow>
     process_file e st f =
       Inr (st\<lparr>stdout := stdout st @
              [''Processing: '' @ f @ ''...'',
               ''  [ERROR] Could not read '' @ path_join INPUT_DIR f]\<rparr>)"
  by (simp add: process_file_def print_def Let_def)

lemma process_files_append:
  "process_files e st (xs @ ys) =
     (case process_files e st xs of
        Inl err \<Rightarrow> Inl err
      | Inr st' \<Rightarrow> process_files e st' ys)"
  by (induction xs arbitrary: st) (auto split: sum.splits)

lemma loop_step_simps:
  "loop_step e (Inl err) g = Inl err"
  "loop_step e (Inr st) g = process_file e st g"
  by (simp_all add: loop_step_def)

lemma loop_step_Inl: "foldl (loop_step e) (Inl err) gs = Inl err"
  by (induction gs) (simp_all add: loop_step_simps)

lemma process_files_fold: "process_files e st gs = foldl (loop_step e) (Inr st) gs"
  by (induction gs arbitrary: st) (auto simp: loop_step_simps loop_step_Inl split: sum.splits)

lemma process_target_stdout:
  "\<exists>line. stdout (process_target e fn st t) = stdout st @ [line]"
  by (auto simp: process_target_def Let_def print_def split: prod.splits)

lemma process_targets_stdout:
  "\<exists>ls. stdout (foldl (process_target e fn) st ts) = stdout st @ ls"
proof (induction ts arbitrary: st)
  case Nil
  then show ?case by simp
next
  case (Cons t ts)
  from process_target_stdout [of e fn st t] obtain line
    where 1: "stdout (process_target e fn st t) = stdout st @ [line]" by blast
  from Cons [of "process_target e fn st t"] obtain ls
    where "stdout (foldl (process_target e fn) (process_target e fn st t) ts)
             = stdout (process_target e fn st t) @ ls" by blast
  with 1 show ?case by simp
qed

lemma process_file_stdout:
  assumes "process_file e st g = Inr st'"
  shows "\<exists>ls. stdout st' = stdout st @ (''Processing: '' @ g @ ''...'') # ls"
proof (cases "imread e (path_join INPUT_DIR g)")
  case None
  from process_file_unreadable [OF None, of st] assms show ?thesis by auto
next
  case (Some img)
  let ?st = "(print (''Processing: '' @ g @ ''...'') st)
               \<lparr>files := (files (print (''Processing: '' @ g @ ''...'') st))
                  (temp_tiff \<mapsto> TIFF (clamp_quantize (invalid_cast e) (remap img)))\<rparr>"
  from assms Some have "st' = foldl (process_target e g) ?st (targets_of g)"
    by (simp add: process_file_def Let_def split: if_splits)
  with process_targets_stdout [of e g ?st "targets_of g"] show ?thesis
    by (auto simp: print_def)
qed

lemma process_files_stdout:
  "process_files e st gs = Inr st' \<Longrightarrow>
     (\<exists>ls. stdout st' = stdout st @ ls)
     \<and> (\<forall>g \<in> set gs. (''Processing: '' @ g @ ''...'') \<in> set (stdout st'))"
proof (induction gs arbitrary: st)
  case Nil
  then show ?case by simp
next
  case (Cons g gs)
  from Cons.prems obtain s1 where 1: "process_file e st g = Inr s1"
    and 2: "process_files e s1 gs = Inr st'"
    by (auto split: sum.splits)
  from process_file_stdout [OF 1] obtain ls1
    where l1: "stdout s1 = stdout st @ (''Processing: '' @ g @ ''...'') # ls1" by blast
  from Cons.IH [OF 2] obtain ls2 where l2: "stdout st' = stdout s1 @ ls2"
    and rest: "\<forall>g \<in> set gs. (''Processing: '' @ g @ ''...'') \<in> set (stdout st')"
    by blast
  from l1 l2 rest show ?case by auto
qed

text \<open>
  C9. Let the decoder return no data for a file. The loop body then adds the two log
  lines for it and changes nothing else, raising nothing. Wherever the file stands in the
  batch, the loop body is run on every file after it, in order, from the state the files
  before it left with the two lines added. If the batch ends without an exception, the log
  holds the error line of that file and the processing line of every file after it.
\<close>

theorem unreadable_file_is_skipped:
  assumes "imread e (path_join INPUT_DIR f) = None"
  shows "process_file e st f =
           Inr (st\<lparr>stdout := stdout st @
                  [''Processing: '' @ f @ ''...'',
                   ''  [ERROR] Could not read '' @ path_join INPUT_DIR f]\<rparr>)
         \<and> process_files e st (before @ f # rest) =
             (case foldl (loop_step e) (Inr st) before of
                Inl err \<Rightarrow> Inl err
              | Inr st' \<Rightarrow>
                  foldl (loop_step e)
                    (Inr (st'\<lparr>stdout := stdout st' @
                            [''Processing: '' @ f @ ''...'',
                             ''  [ERROR] Could not read '' @ path_join INPUT_DIR f]\<rparr>)) rest)
         \<and> (\<forall>st_end. process_files e st (before @ f # rest) = Inr st_end \<longrightarrow>
               (''  [ERROR] Could not read '' @ path_join INPUT_DIR f) \<in> set (stdout st_end)
               \<and> (\<forall>g \<in> set rest. (''Processing: '' @ g @ ''...'') \<in> set (stdout st_end)))"
proof (intro conjI allI impI)
  show "process_file e st f =
           Inr (st\<lparr>stdout := stdout st @
                  [''Processing: '' @ f @ ''...'',
                   ''  [ERROR] Could not read '' @ path_join INPUT_DIR f]\<rparr>)"
    using assms by (rule process_file_unreadable)
next
  show "process_files e st (before @ f # rest) =
             (case foldl (loop_step e) (Inr st) before of
                Inl err \<Rightarrow> Inl err
              | Inr st' \<Rightarrow>
                  foldl (loop_step e)
                    (Inr (st'\<lparr>stdout := stdout st' @
                            [''Processing: '' @ f @ ''...'',
                             ''  [ERROR] Could not read '' @ path_join INPUT_DIR f]\<rparr>)) rest)"
    using assms
    by (simp add: process_files_fold loop_step_Inl loop_step_simps
          process_file_unreadable split: sum.splits)
next
  fix st_end
  assume run: "process_files e st (before @ f # rest) = Inr st_end"
  then obtain s1 where b: "process_files e st before = Inr s1"
    and r: "process_files e s1 (f # rest) = Inr st_end"
    by (auto simp: process_files_append split: sum.splits)
  let ?s2 = "s1\<lparr>stdout := stdout s1 @
                 [''Processing: '' @ f @ ''...'',
                  ''  [ERROR] Could not read '' @ path_join INPUT_DIR f]\<rparr>"
  from r assms have tail: "process_files e ?s2 rest = Inr st_end"
    by (simp add: process_file_unreadable)
  from process_files_stdout [OF tail] obtain ls where "stdout st_end = stdout ?s2 @ ls"
    and all: "\<forall>g \<in> set rest. (''Processing: '' @ g @ ''...'') \<in> set (stdout st_end)"
    by blast
  then show "(''  [ERROR] Could not read '' @ path_join INPUT_DIR f) \<in> set (stdout st_end)"
    by simp
  from all show "\<forall>g \<in> set rest. (''Processing: '' @ g @ ''...'') \<in> set (stdout st_end)" .
qed

lemma move_over_dst: "src \<noteq> dst \<Longrightarrow> move_over src dst fs dst = fs src"
  by (simp add: move_over_def os_rename_def os_remove_def Let_def)

lemma move_over_other:
  "p \<noteq> src \<Longrightarrow> p \<noteq> dst \<Longrightarrow> move_over src dst fs p = fs p"
  by (simp add: move_over_def os_rename_def os_remove_def Let_def)

lemma process_target_success:
  assumes "texconv e (texconv_cmd target) (files st) = (0, fs1)"
    and "fs1 (path_join OUTPUT_DIR ''temp_normal.dds'') = Some d"
    and "final_dds_of target \<noteq> path_join OUTPUT_DIR ''temp_normal.dds''"
  shows "files (process_target e filename st target) (final_dds_of target) = Some d"
  using assms
  by (simp add: process_target_def Let_def print_def move_over_dst)

text \<open>The readable file of the sample run, from any state.\<close>

lemma demo_image:
  "clamp_quantize 0 (remap [Fin (1 / 2), Fin (1 / 2), Fin 1]) = [32767, 32767, 65535]"
  by (simp add: remap_def img_min_def pixel_eval)

lemma basename_unknown:
  "basename ''assets/textures/rtshowcase/unknown_normal.dds'' = ''unknown_normal.dds''"
  by (simp add: basename_def)

lemma process_file_demo:
  "\<exists>st'. process_file demo_env st ''rock_nor_gl.exr'' = Inr st'
      \<and> stdout st' = stdout st @
           [''Processing: rock_nor_gl.exr...'', ''  -> Generated: unknown_normal.dds'']
      \<and> files st' ''assets/textures/rtshowcase/unknown_normal.dds'' = Some (DDS [11])
      \<and> files st' ''temp_normal.tif'' = Some (TIFF [32767, 32767, 65535])"
proof -
  let ?st1 = "print (''Processing: '' @ ''rock_nor_gl.exr'' @ ''...'') st"
  let ?st2 = "?st1\<lparr>files := (files ?st1)(temp_tiff \<mapsto> TIFF [32767, 32767, 65535])\<rparr>"
  let ?fs1 = "(files ?st2)(''assets/textures/rtshowcase/temp_normal.dds'' \<mapsto> DDS [11])"
  have rd: "imread demo_env (path_join INPUT_DIR ''rock_nor_gl.exr'')
              = Some [Fin (1 / 2), Fin (1 / 2), Fin 1]"
    by (simp add: input_paths demo_env_def)
  have inv: "invalid_cast demo_env = 0"
    by (simp add: demo_env_def)
  have tg: "targets_of ''rock_nor_gl.exr'' = [''unknown_normal'']"
    by (simp add: targets_of_def lower_names)
  have pf: "process_file demo_env st ''rock_nor_gl.exr''
              = Inr (process_target demo_env ''rock_nor_gl.exr'' ?st2 ''unknown_normal'')"
    by (simp add: process_file_def Let_def rd inv tg demo_image)
  have len: "length (texconv_cmd ''unknown_normal'') = 11"
    by (simp add: texconv_cmd_def)
  have tc: "texconv demo_env (texconv_cmd ''unknown_normal'') (files ?st2) = (0, ?fs1)"
    by (simp add: demo_env_def len)
  have gen: "?fs1 (path_join OUTPUT_DIR ''temp_normal.dds'') = Some (DDS [11])"
    by (simp only: generated_dds_path fun_upd_same)
  have pt: "process_target demo_env ''rock_nor_gl.exr'' ?st2 ''unknown_normal''
              = print (''  -> Generated: '' @ ''unknown_normal.dds'')
                  (?st2\<lparr>files := move_over ''assets/textures/rtshowcase/temp_normal.dds''
                                     ''assets/textures/rtshowcase/unknown_normal.dds'' ?fs1\<rparr>)"
    unfolding process_target_def Let_def tc
    by (simp add: generated_dds_path final_dds_unknown basename_unknown)
  have tmp: "temp_tiff = ''temp_normal.tif''"
    by (simp add: temp_tiff_def)
  show ?thesis
    unfolding pf pt
    by (simp add: print_def move_over_dst move_over_other tmp)
qed

theorem unreadable_file_is_skipped_witness:
  "imread demo_env (path_join INPUT_DIR ''broken_nor_gl.exr'') = None
   \<and> (\<exists>st_end. process_files demo_env empty_state [''broken_nor_gl.exr'', ''rock_nor_gl.exr'']
                  = Inr st_end
         \<and> stdout st_end =
             [''Processing: broken_nor_gl.exr...'',
              ''  [ERROR] Could not read assets/polyhaven/textures/broken_nor_gl.exr'',
              ''Processing: rock_nor_gl.exr...'',
              ''  -> Generated: unknown_normal.dds'']
         \<and> files st_end ''assets/textures/rtshowcase/unknown_normal.dds'' = Some (DDS [11])
         \<and> files st_end ''temp_normal.tif'' = Some (TIFF [32767, 32767, 65535]))"
proof -
  have h: "imread demo_env (path_join INPUT_DIR ''broken_nor_gl.exr'') = None"
    by (simp add: input_paths demo_env_def)
  let ?s1 = "empty_state\<lparr>stdout := stdout empty_state @
                [''Processing: '' @ ''broken_nor_gl.exr'' @ ''...'',
                 ''  [ERROR] Could not read '' @ path_join INPUT_DIR ''broken_nor_gl.exr'']\<rparr>"
  from unreadable_file_is_skipped [OF h, of empty_state "[]" "[''rock_nor_gl.exr'']"]
  have "process_files demo_env empty_state ([] @ [''broken_nor_gl.exr'', ''rock_nor_gl.exr''])
          = (case foldl (loop_step demo_env) (Inr empty_state) [] of
               Inl err \<Rightarrow> Inl err
             | Inr st' \<Rightarrow>
                 foldl (loop_step demo_env)
                   (Inr (st'\<lparr>stdout := stdout st' @
                           [''Processing: '' @ ''broken_nor_gl.exr'' @ ''...'',
                            ''  [ERROR] Could not read ''
                              @ path_join INPUT_DIR ''broken_nor_gl.exr'']\<rparr>))
                   [''rock_nor_gl.exr''])"
    by blast
  then have run: "process_files demo_env empty_state [''broken_nor_gl.exr'', ''rock_nor_gl.exr'']
          = process_file demo_env ?s1 ''rock_nor_gl.exr''"
    by (simp only: append_Nil foldl_Nil foldl_Cons sum.case loop_step_simps)
  have log: "stdout ?s1 =
      [''Processing: broken_nor_gl.exr...'',
       ''  [ERROR] Could not read assets/polyhaven/textures/broken_nor_gl.exr'']"
    by (simp add: empty_state_def input_paths)
  from process_file_demo [of ?s1] obtain st_end
    where "process_file demo_env ?s1 ''rock_nor_gl.exr'' = Inr st_end"
      and "stdout st_end = stdout ?s1 @
             [''Processing: rock_nor_gl.exr...'', ''  -> Generated: unknown_normal.dds'']"
      and "files st_end ''assets/textures/rtshowcase/unknown_normal.dds'' = Some (DDS [11])"
      and "files st_end ''temp_normal.tif'' = Some (TIFF [32767, 32767, 65535])"
    by blast
  with run log h show ?thesis by simp
qed

text \<open>A name spelled with the Kelvin sign is a castle\_brick name, not an unknown one.\<close>

lemma kelvin_name_is_castle_brick:
  "str_in ''castle_brick'' (lower kelvin_brick_name)"
  by (simp add: lower_names)

text \<open>
  C10. A file name in whose lower-cased form none of the four categories occurs is
  processed like any other: it has the single target \<^verbatim>\<open>unknown_normal\<close>, compressed with
  the cap 1024, and its destination is \<^verbatim>\<open>unknown_normal.dds\<close> in the output directory.
  When the file decodes and the compressor succeeds and leaves its result, that result is
  what the destination holds afterwards, whatever it held before; the destination does not
  depend on the file name, so every such file writes to the same place.
\<close>

theorem unknown_file_single_target:
  assumes "\<not> str_in ''wood_shutter'' (lower f)"
    and "\<not> str_in ''castle_brick'' (lower f)"
    and "\<not> str_in ''grey_plaster'' (lower f)"
    and "\<not> str_in ''metal_plate'' (lower f)"
  shows "targets_of f = [''unknown_normal'']
         \<and> max_res_of ''unknown_normal'' = 1024
         \<and> texconv_cmd ''unknown_normal'' =
             [''./texconv.exe'', ''-f'', ''BC5_UNORM'', ''-y'', ''-w'', ''1024'', ''-h'', ''1024'',
              ''-o'', ''assets/textures/rtshowcase'', ''temp_normal.tif'']
         \<and> final_dds_of ''unknown_normal'' = ''assets/textures/rtshowcase/unknown_normal.dds''
         \<and> (\<forall>e st img fs1 d.
               imread e (path_join INPUT_DIR f) = Some img \<and> img \<noteq> []
               \<and> texconv e (texconv_cmd ''unknown_normal'')
                    ((files st)(temp_tiff \<mapsto>
                       TIFF (clamp_quantize (invalid_cast e) (remap img)))) = (0, fs1)
               \<and> fs1 (path_join OUTPUT_DIR ''temp_normal.dds'') = Some d
               \<longrightarrow> (\<exists>st'. process_file e st f = Inr st'
                      \<and> files st' ''assets/textures/rtshowcase/unknown_normal.dds'' = Some d))"
proof -
  have tg: "targets_of f = [''unknown_normal'']"
    using assms by (simp add: targets_of_def Let_def)
  have cap: "max_res_of ''unknown_normal'' = 1024"
    by (simp add: max_res_of_def MAX_PROP_RES_def)
  have cmd: "texconv_cmd ''unknown_normal'' =
             [''./texconv.exe'', ''-f'', ''BC5_UNORM'', ''-y'', ''-w'', ''1024'', ''-h'', ''1024'',
              ''-o'', ''assets/textures/rtshowcase'', ''temp_normal.tif'']"
    by (simp add: texconv_cmd_def cap TEXCONV_PATH_def OUTPUT_DIR_def temp_tiff_def str_nat_caps)
  have ne: "final_dds_of ''unknown_normal'' \<noteq> path_join OUTPUT_DIR ''temp_normal.dds''"
    by (simp add: final_dds_unknown generated_dds_path)
  have run: "\<exists>st'. process_file e st f = Inr st'
                \<and> files st' ''assets/textures/rtshowcase/unknown_normal.dds'' = Some d"
    if "imread e (path_join INPUT_DIR f) = Some img" "img \<noteq> []"
       "texconv e (texconv_cmd ''unknown_normal'')
          ((files st)(temp_tiff \<mapsto> TIFF (clamp_quantize (invalid_cast e) (remap img))))
            = (0, fs1)"
       "fs1 (path_join OUTPUT_DIR ''temp_normal.dds'') = Some d"
    for e st img fs1 d
  proof -
    let ?st = "(print (''Processing: '' @ f @ ''...'') st)
                 \<lparr>files := (files (print (''Processing: '' @ f @ ''...'') st))
                    (temp_tiff \<mapsto> TIFF (clamp_quantize (invalid_cast e) (remap img)))\<rparr>"
    have pf: "process_file e st f = Inr (process_target e f ?st ''unknown_normal'')"
      using that(1,2) by (simp add: process_file_def Let_def tg)
    have "files ?st = (files st)(temp_tiff \<mapsto>
                         TIFF (clamp_quantize (invalid_cast e) (remap img)))"
      by (simp add: print_def)
    with that(3) have "texconv e (texconv_cmd ''unknown_normal'') (files ?st) = (0, fs1)"
      by simp
    from process_target_success [OF this that(4) ne, of f] pf
    show ?thesis by (simp add: final_dds_unknown)
  qed
  from tg cap cmd final_dds_unknown run show ?thesis
    by blast
qed

theorem unknown_file_single_target_witness:
  "targets_of ''rock_nor_gl.exr'' = [''unknown_normal'']
   \<and> (\<exists>st'. process_file demo_env empty_state ''rock_nor_gl.exr'' = Inr st'
         \<and> files st' ''assets/textures/rtshowcase/unknown_normal.dds'' = Some (DDS [11]))"
proof -
  have none:
    "\<not> str_in ''wood_shutter'' (lower ''rock_nor_gl.exr'')"
    "\<not> str_in ''castle_brick'' (lower ''rock_nor_gl.exr'')"
    "\<not> str_in ''grey_plaster'' (lower ''rock_nor_gl.exr'')"
    "\<not> str_in ''metal_plate'' (lower ''rock_nor_gl.exr'')"
    by (simp_all add: lower_names)
  let ?img = "[Fin (1 / 2), Fin (1 / 2), Fin 1]"
  let ?fs = "(files empty_state)(temp_tiff \<mapsto>
               TIFF (clamp_quantize (invalid_cast demo_env) (remap ?img)))"
  let ?fs1 = "?fs(''assets/textures/rtshowcase/temp_normal.dds'' \<mapsto> DDS [11])"
  have rd: "imread demo_env (path_join INPUT_DIR ''rock_nor_gl.exr'') = Some ?img"
    by (simp add: input_paths demo_env_def)
  have len: "length (texconv_cmd ''unknown_normal'') = 11"
    by (simp add: texconv_cmd_def)
  have tc: "texconv demo_env (texconv_cmd ''unknown_normal'') ?fs = (0, ?fs1)"
    by (simp add: demo_env_def len)
  have gen: "?fs1 (path_join OUTPUT_DIR ''temp_normal.dds'') = Some (DDS [11])"
    by (simp only: generated_dds_path fun_upd_same)
  from unknown_file_single_target [OF none]
  have tg: "targets_of ''rock_nor_gl.exr'' = [''unknown_normal'']"
    and run: "\<forall>e st img fs1 d.
               imread e (path_join INPUT_DIR ''rock_nor_gl.exr'') = Some img \<and> img \<noteq> []
               \<and> texconv e (texconv_cmd ''unknown_normal'')
                    ((files st)(temp_tiff \<mapsto>
                       TIFF (clamp_quantize (invalid_cast e) (remap img)))) = (0, fs1)
               \<and> fs1 (path_join OUTPUT_DIR ''temp_normal.dds'') = Some d
               \<longrightarrow> (\<exists>st'. process_file e st ''rock_nor_gl.exr'' = Inr st'
                      \<and> files st' ''assets/textures/rtshowcase/unknown_normal.dds'' = Some d)"
    by blast+
  have ne: "?img \<noteq> []" by simp
  from run [rule_format, of demo_env ?img empty_state ?fs1 "DDS [11]"] rd ne tc gen
  have "\<exists>st'. process_file demo_env empty_state ''rock_nor_gl.exr'' = Inr st'
         \<and> files st' ''assets/textures/rtshowcase/unknown_normal.dds'' = Some (DDS [11])"
    by blast
  with tg show ?thesis by (rule conjI)
qed

end
